theory Spec2Isabelle
  imports Complex_Main "HOL-Library.Word"
begin

section \<open>Data model\<close>

text \<open>
  Modelled from the spec: the type declarations \<^verbatim>\<open>Issue\<close> and \<^verbatim>\<open>Team\<close> of
  \<^verbatim>\<open>@/types\<close> are not among the sources. The records below carry the fields the
  code reads and writes (spec section 3): an issue has a status
  \<^verbatim>\<open>open|occupied|closed\<close>, an ordered tag list, an assignee or null, two instants or
  null, and a pull-request status; a team has a name (its key) and points.
  Instants are milliseconds since the epoch, as \<^verbatim>\<open>Date.now()\<close> gives them.
\<close>

text \<open>
  A JavaScript string is a sequence of 16-bit code units. The pull-request URL, which the
  code trims, is kept in that form; ids, names, tags and messages, which the code only
  compares, searches and joins, are kept as \<open>string\<close>. \<open>units\<close> gives the code units of
  an ASCII text.
\<close>

type_synonym js_string = "16 word list"

definition units :: "string \<Rightarrow> js_string" where
  "units s = map (\<lambda>c. of_nat (of_char c)) s"

text \<open>
  What the points field of a team document can come to hold: a number (an integer here),
  \<^verbatim>\<open>NaN\<close>, or a string, which is what \<^verbatim>\<open>+\<close> gives when an operand is not a number.
\<close>

datatype js_value = Number int | NotANumber | Text string

datatype status = Open | Occupied | Closed

datatype pr_status = Pending | Approved | Merged | Rejected

record issue =
  id' :: string
  title :: string
  tags :: "string list"
  status :: status
  assignedTo :: "string option"
  occupiedAt :: "int option"
  closedAt :: "int option"
  prUrl :: "js_string option"
  prStatus :: "pr_status option"
  lastUpdated :: "int option"

record team =
  name :: string
  points :: js_value
  active :: bool

text \<open>The value of the status field as the string the code interpolates into messages.\<close>

fun status_str :: "status \<Rightarrow> string" where
  "status_str Open = ''open''"
| "status_str Occupied = ''occupied''"
| "status_str Closed = ''closed''"

text \<open>
  A \<^verbatim>\<open>Partial<Issue>\<close> passed to \<^verbatim>\<open>updateDoc\<close> or \<^verbatim>\<open>transaction.update\<close>: the
  fields it names, in order. Fields it does not name keep their value.
\<close>

datatype issue_field =
    Status status
  | AssignedTo "string option"
  | OccupiedAt "int option"
  | ClosedAt "int option"
  | PrUrl js_string
  | PrStatus pr_status
  | LastUpdated "int option"

fun set_field :: "issue_field \<Rightarrow> issue \<Rightarrow> issue" where
  "set_field (Status s) i = i\<lparr>status := s\<rparr>"
| "set_field (AssignedTo a) i = i\<lparr>assignedTo := a\<rparr>"
| "set_field (OccupiedAt t) i = i\<lparr>occupiedAt := t\<rparr>"
| "set_field (ClosedAt t) i = i\<lparr>closedAt := t\<rparr>"
| "set_field (PrUrl u) i = i\<lparr>prUrl := Some u\<rparr>"
| "set_field (PrStatus p) i = i\<lparr>prStatus := Some p\<rparr>"
| "set_field (LastUpdated t) i = i\<lparr>lastUpdated := t\<rparr>"

definition apply_updates :: "issue_field list \<Rightarrow> issue \<Rightarrow> issue" where
  "apply_updates us i = fold set_field us i"

section \<open>Errors and results\<close>

text \<open>
  A thrown JavaScript value: an \<^verbatim>\<open>Error\<close> with its message and the optional
  \<^verbatim>\<open>code\<close> the store attaches, or the \<^verbatim>\<open>ReferenceError\<close> the engine raises for a
  variable that cannot be read or assigned (it has no \<^verbatim>\<open>code\<close>).
\<close>

datatype js_error = Error string "string option" | ReferenceError string

fun message :: "js_error \<Rightarrow> string" where
  "message (Error m c) = m"
| "message (ReferenceError m) = m"

fun err_code :: "js_error \<Rightarrow> string option" where
  "err_code (Error m c) = c"
| "err_code (ReferenceError m) = None"

text \<open>The value \<^verbatim>\<open>{ success, error? }\<close> every operation returns.\<close>

datatype result = Result (success: bool) (error: "string option")

definition ok :: result where
  "ok = Result True None"

definition failure :: "string \<Rightarrow> result" where
  "failure m = Result False (Some m)"

text \<open>\<^verbatim>\<open>String.prototype.includes\<close>: the argument occurs as a contiguous substring.\<close>

fun starts_with :: "string \<Rightarrow> string \<Rightarrow> bool" where
  "starts_with s [] = True"
| "starts_with [] (c # cs) = False"
| "starts_with (x # xs) (c # cs) = (x = c \<and> starts_with xs cs)"

fun includes_str :: "string \<Rightarrow> string \<Rightarrow> bool" where
  "includes_str [] sub = (sub = [])"
| "includes_str (x # xs) sub = (starts_with (x # xs) sub \<or> includes_str xs sub)"

definition already_msg :: "status \<Rightarrow> string" where
  "already_msg s = ''This issue is already '' @ status_str s @ ''. Please choose another issue.''"

definition already_self_msg :: string where
  "already_self_msg = ''Your team is already assigned to this issue.''"

definition quota_msg :: string where
  "quota_msg = ''Your team has already occupied 3 issues. Please close an issue before occupying a new one.''"

section \<open>The issue collection and its transactions\<close>

text \<open>
  The \<^verbatim>\<open>issues\<close> collection is the list of its documents, each carrying its id.
  \<^verbatim>\<open>getDoc\<close> and \<^verbatim>\<open>transaction.get\<close> read the document with a given id (None when
  it does not exist); an update rewrites the named fields of that document.
\<close>

definition getDoc :: "issue list \<Rightarrow> string \<Rightarrow> issue option" where
  "getDoc col k = find (\<lambda>i. id' i = k) col"

definition update_doc :: "issue list \<Rightarrow> string \<Rightarrow> issue_field list \<Rightarrow> issue list" where
  "update_doc col k us = map (\<lambda>i. if id' i = k then apply_updates us i else i) col"

text \<open>
  \<^verbatim>\<open>runTransaction\<close> on one document, as the store serialises it: the body
  reads the document and either throws (nothing is written) or queues an update, which is
  committed together with the read.
\<close>

definition runTransaction ::
  "issue list \<Rightarrow> string \<Rightarrow> (issue option \<Rightarrow> js_error + issue_field list) \<Rightarrow> js_error + issue list" where
  "runTransaction col k body =
     (case body (getDoc col k) of
        Inl e \<Rightarrow> Inl e
      | Inr us \<Rightarrow> Inr (update_doc col k us))"

text \<open>
  The transaction body of the first \<^verbatim>\<open>occupyIssueTransaction\<close> (part_000, lines
  235-263), for a team and the instant \<^verbatim>\<open>Date.now()\<close> gives inside it.
\<close>

definition occupy_body_1 :: "string \<Rightarrow> int \<Rightarrow> issue option \<Rightarrow> js_error + issue_field list" where
  "occupy_body_1 teamName now issueDoc =
     (case issueDoc of
        None \<Rightarrow> Inl (Error ''Issue not found'' None)
      | Some issueData \<Rightarrow>
          if status issueData \<noteq> Open then Inl (Error (already_msg (status issueData)) None)
          else Inr [Status Occupied, AssignedTo (Some teamName), OccupiedAt (Some now)])"

text \<open>
  The transaction body of the second \<^verbatim>\<open>occupyIssueTransaction\<close> (part_000, lines
  583-607): the status is checked before the assignee.
\<close>

definition occupy_body :: "string \<Rightarrow> int \<Rightarrow> issue option \<Rightarrow> js_error + issue_field list" where
  "occupy_body teamName updateTime latestDoc =
     (case latestDoc of
        None \<Rightarrow> Inl (Error ''Issue no longer exists'' None)
      | Some currentData \<Rightarrow>
          if status currentData \<noteq> Open then Inl (Error (already_msg (status currentData)) None)
          else if assignedTo currentData = Some teamName then Inl (Error already_self_msg None)
          else Inr [Status Occupied, AssignedTo (Some teamName),
                    OccupiedAt (Some updateTime), LastUpdated (Some updateTime)])"

text \<open>
  Claim attempts on one issue in the order in which the store serialises their
  transactions: each attempt is a team and the instant of its write. The outcome of an
  attempt is None when its transaction commits and the error it throws otherwise.
\<close>

fun serial_claims ::
  "(string \<Rightarrow> int \<Rightarrow> issue option \<Rightarrow> js_error + issue_field list) \<Rightarrow>
   issue list \<Rightarrow> string \<Rightarrow> (string \<times> int) list \<Rightarrow> js_error option list" where
  "serial_claims body col k [] = []"
| "serial_claims body col k ((teamName, now) # rest) =
     (case runTransaction col k (body teamName now) of
        Inl e \<Rightarrow> Some e # serial_claims body col k rest
      | Inr col' \<Rightarrow> None # serial_claims body col' k rest)"

definition commits :: "js_error option list \<Rightarrow> nat" where
  "commits outcomes = length (filter (\<lambda>r. r = None) outcomes)"

section \<open>The claim coordinator: \<^verbatim>\<open>occupyIssueTransaction\<close>\<close>

text \<open>
  Everything a call can touch: the two collections of the store, the module-level
  \<^verbatim>\<open>teamIssueCountCache\<close>, the clock \<^verbatim>\<open>Date.now()\<close> reads, and the environment's
  script. \<^verbatim>\<open>faults\<close> holds, for each awaited store call in turn, the error it rejects
  with (None, or an exhausted script: the call goes through). \<^verbatim>\<open>slow\<close> says, for each
  call the client races against its timer, whether the timer fires first. \<^verbatim>\<open>timers\<close>
  logs the delays of the back-off timers that were awaited, in order. Store calls take no
  time in the model; only timers advance the clock.
\<close>

record cache_entry =
  count :: int
  timestamp :: int

record world =
  issuesCol :: "issue list"
  teamsCol :: "team list"
  teamIssueCountCache :: "string \<rightharpoonup> cache_entry"
  clock :: int
  faults :: "js_error option list"
  slow :: "bool list"
  timers :: "int list"

definition CACHE_TTL :: int where
  "CACHE_TTL = 5000"

definition next_fault :: "world \<Rightarrow> js_error option \<times> world" where
  "next_fault w = (case faults w of [] \<Rightarrow> (None, w) | f # fs \<Rightarrow> (f, w\<lparr>faults := fs\<rparr>))"

definition sleep :: "int \<Rightarrow> world \<Rightarrow> world" where
  "sleep ms w = w\<lparr>clock := clock w + ms, timers := timers w @ [ms]\<rparr>"

text \<open>JavaScript's \<^verbatim>\<open>a || b\<close> on strings: the empty string is falsy.\<close>

definition or_else :: "string \<Rightarrow> string \<Rightarrow> string" where
  "or_else a b = (if a \<noteq> [] then a else b)"

text \<open>The filter of the quota query: \<^verbatim>\<open>assignedTo == teamName\<close> and \<^verbatim>\<open>status == 'occupied'\<close>.\<close>

definition teamOccupied :: "string \<Rightarrow> issue \<Rightarrow> bool" where
  "teamOccupied teamName i = (assignedTo i = Some teamName \<and> status i = Occupied)"

definition occupiedCount :: "string \<Rightarrow> issue list \<Rightarrow> nat" where
  "occupiedCount teamName col = length (filter (teamOccupied teamName) col)"

subsection \<open>First version (part_000, lines 207-274)\<close>

definition catch_1 :: "js_error \<Rightarrow> result" where
  "catch_1 e = failure (or_else (message e) ''Failed to occupy issue. Please try again.'')"

definition occupyIssueTransaction_1 :: "string \<Rightarrow> string \<Rightarrow> world \<Rightarrow> result \<times> world" where
  "occupyIssueTransaction_1 issueId teamName w =
     (case next_fault w of
        (Some e, w1) \<Rightarrow> (catch_1 e, w1)
      | (None, w1) \<Rightarrow>
          if occupiedCount teamName (issuesCol w1) \<ge> 3 then (failure quota_msg, w1)
          else
            (case next_fault w1 of
               (Some e, w2) \<Rightarrow> (catch_1 e, w2)
             | (None, w2) \<Rightarrow>
                 (case runTransaction (issuesCol w2) issueId (occupy_body_1 teamName (clock w2)) of
                    Inl e \<Rightarrow> (catch_1 e, w2)
                  | Inr col' \<Rightarrow> (ok, w2\<lparr>issuesCol := col'\<rparr>))))"

subsection \<open>Second version (part_000, lines 515-745)\<close>

text \<open>
  The state of a variable at a program point: declared by \<^verbatim>\<open>let\<close> further down the
  enclosing block and not yet initialised (its temporal dead zone), declared nowhere,
  or bound to a value. Reading or assigning a variable in the first two states throws a
  \<^verbatim>\<open>ReferenceError\<close>; the messages are those of V8.
\<close>

datatype 'a binding = Uninitialised | Undeclared | Bound 'a

definition tdz_error :: "string \<Rightarrow> js_error" where
  "tdz_error v = ReferenceError (''Cannot access '' @ [CHR 0x27] @ v @ [CHR 0x27] @ '' before initialization'')"

definition undeclared_error :: "string \<Rightarrow> js_error" where
  "undeclared_error v = ReferenceError (v @ '' is not defined'')"

definition assign_var :: "string \<Rightarrow> 'a binding \<Rightarrow> 'a \<Rightarrow> js_error + 'a binding" where
  "assign_var v b x =
     (case b of
        Uninitialised \<Rightarrow> Inl (tdz_error v)
      | Undeclared \<Rightarrow> Inl (undeclared_error v)
      | Bound y \<Rightarrow> Inr (Bound x))"

definition read_var :: "string \<Rightarrow> 'a binding \<Rightarrow> js_error + 'a" where
  "read_var v b =
     (case b of
        Uninitialised \<Rightarrow> Inl (tdz_error v)
      | Undeclared \<Rightarrow> Inl (undeclared_error v)
      | Bound y \<Rightarrow> Inr y)"

text \<open>The test of lines 624 and 689: \<^verbatim>\<open>error.message.includes('already')\<close>.\<close>

definition is_already :: "js_error \<Rightarrow> bool" where
  "is_already e = includes_str (message e) ''already''"

definition exhausted_msg :: string where
  "exhausted_msg = ''Failed to occupy issue after multiple attempts. Please try again.''"

text \<open>
  The handler of the retry loop (lines 620-635), given the states of the two variables
  it names besides \<^verbatim>\<open>error\<close> (here \<open>err\<close>) and \<^verbatim>\<open>maxRetries\<close>. It returns a result, throws, or
  lets the loop go on: after awaiting a timer (\<^verbatim>\<open>continue\<close>) or by falling through.
\<close>

datatype handler_outcome =
    Returns result
  | Throws js_error
  | Retries int "js_error option binding"
  | FallsThrough "js_error option binding"

definition retry_catch ::
  "js_error \<Rightarrow> int \<Rightarrow> js_error option binding \<Rightarrow> int binding \<Rightarrow> handler_outcome" where
  "retry_catch err maxRetries lastError i =
     (case assign_var ''lastError'' lastError (Some err) of
        Inl e \<Rightarrow> Throws e
      | Inr lastError' \<Rightarrow>
          if is_already err then Returns (failure (message err))
          else
            (case read_var ''i'' i of
               Inl e \<Rightarrow> Throws e
             | Inr iv \<Rightarrow>
                 if iv < maxRetries - 1 then Retries (min (1000 * (iv + 1)) 3000) lastError'
                 else FallsThrough lastError'))"

text \<open>The statement after the loop (lines 639-642): \<^verbatim>\<open>lastError?.message || ...\<close>.\<close>

definition retries_exhausted :: "js_error option binding \<Rightarrow> js_error + result" where
  "retries_exhausted lastError =
     (case read_var ''lastError'' lastError of
        Inl e \<Rightarrow> Inl e
      | Inr None \<Rightarrow> Inr (failure exhausted_msg)
      | Inr (Some e) \<Rightarrow> Inr (failure (or_else (message e) exhausted_msg)))"

text \<open>
  The quota query inside the loop (lines 558-580), skipped while the cache entry read
  before the loop is fresh. The query has \<^verbatim>\<open>limit(3)\<close>. It throws (Inl), returns the
  quota failure (Some), or goes on (None) after storing the count.
\<close>

definition refresh_count ::
  "string \<Rightarrow> cache_entry option \<Rightarrow> int \<Rightarrow> world \<Rightarrow> (js_error + result option) \<times> world" where
  "refresh_count teamName cachedCount currentTime w =
     (if (case cachedCount of None \<Rightarrow> True | Some c \<Rightarrow> currentTime - timestamp c \<ge> CACHE_TTL) then
        (case next_fault w of
           (Some e, w1) \<Rightarrow> (Inl e, w1)
         | (None, w1) \<Rightarrow>
             (let n = min 3 (int (occupiedCount teamName (issuesCol w1))) in
              if n \<ge> 3 then (Inr (Some (failure quota_msg)), w1)
              else (Inr None,
                    w1\<lparr>teamIssueCountCache := (teamIssueCountCache w1)
                          (teamName \<mapsto> \<lparr>count = n, timestamp = currentTime\<rparr>)\<rparr>)))
      else (Inr None, w))"

text \<open>After a committed transaction (lines 609-616): the entry, if any, is incremented in place.\<close>

definition bump_cache :: "string \<Rightarrow> int \<Rightarrow> world \<Rightarrow> world" where
  "bump_cache teamName currentTime w =
     (case teamIssueCountCache w teamName of
        None \<Rightarrow> w
      | Some updatedCache \<Rightarrow>
          w\<lparr>teamIssueCountCache := (teamIssueCountCache w)
               (teamName \<mapsto> \<lparr>count = count updatedCache + 1, timestamp = currentTime\<rparr>)\<rparr>)"

text \<open>The \<^verbatim>\<open>try\<close> block of one loop iteration (lines 556-618): Inl is what it throws.\<close>

definition try_attempt ::
  "string \<Rightarrow> string \<Rightarrow> cache_entry option \<Rightarrow> int \<Rightarrow> world \<Rightarrow> (js_error + result) \<times> world" where
  "try_attempt issueId teamName cachedCount currentTime w =
     (case refresh_count teamName cachedCount currentTime w of
        (Inl e, w1) \<Rightarrow> (Inl e, w1)
      | (Inr (Some res), w1) \<Rightarrow> (Inr res, w1)
      | (Inr None, w1) \<Rightarrow>
          (case next_fault w1 of
             (Some e, w2) \<Rightarrow> (Inl e, w2)
           | (None, w2) \<Rightarrow>
               (case runTransaction (issuesCol w2) issueId (occupy_body teamName (clock w2)) of
                  Inl e \<Rightarrow> (Inl e, w2)
                | Inr col' \<Rightarrow> (Inr ok, bump_cache teamName currentTime (w2\<lparr>issuesCol := col'\<rparr>)))))"

text \<open>
  The loop \<^verbatim>\<open>for (let attempt = 0; attempt < maxRetries; attempt++)\<close> and the statement
  after it. \<^verbatim>\<open>lastError\<close> is threaded as the loop's state; the handler's \<^verbatim>\<open>i\<close> is
  declared nowhere in the module.
\<close>

function retry_loop ::
  "string \<Rightarrow> string \<Rightarrow> int \<Rightarrow> cache_entry option \<Rightarrow> int \<Rightarrow> js_error option binding \<Rightarrow> int \<Rightarrow>
   world \<Rightarrow> (js_error + result) \<times> world" where
  "retry_loop issueId teamName maxRetries cachedCount currentTime lastError attempt w =
     (if attempt < maxRetries then
        (case try_attempt issueId teamName cachedCount currentTime w of
           (Inr res, w1) \<Rightarrow> (Inr res, w1)
         | (Inl err, w1) \<Rightarrow>
             (case retry_catch err maxRetries lastError Undeclared of
                Returns res \<Rightarrow> (Inr res, w1)
              | Throws e \<Rightarrow> (Inl e, w1)
              | Retries ms lastError' \<Rightarrow>
                  retry_loop issueId teamName maxRetries cachedCount currentTime lastError'
                    (attempt + 1) (sleep ms w1)
              | FallsThrough lastError' \<Rightarrow>
                  retry_loop issueId teamName maxRetries cachedCount currentTime lastError'
                    (attempt + 1) w1))
      else (retries_exhausted lastError, w))"
  by pat_completeness auto
termination
  by (relation "measure (\<lambda>(issueId, teamName, maxRetries, cachedCount, currentTime, lastError, attempt, w).
        nat (maxRetries - attempt))") auto

text \<open>The outer handler (lines 705-734).\<close>

definition outer_catch :: "js_error \<Rightarrow> result" where
  "outer_catch err =
     (if err_code err = Some ''permission-denied''
        then failure ''You do not have permission to occupy this issue.''
      else if err_code err = Some ''failed-precondition''
        then failure ''The issue status has changed. Please refresh and try again.''
      else if err_code err = Some ''unavailable'' \<or> err_code err = Some ''deadline-exceeded''
        then failure ''The service is temporarily unavailable. Please try again in a moment.''
      else failure (or_else (message err) ''Failed to occupy issue. Please try again.''))"

text \<open>
  The outer \<^verbatim>\<open>try\<close> block up to its unconditional \<^verbatim>\<open>return\<close> of line 639. The
  statements after that return (lines 644-704, with \<^verbatim>\<open>let lastError\<close> at line 650) are
  never executed, so \<^verbatim>\<open>lastError\<close> is uninitialised throughout the loop: the build
  targets ES2020 (part_001), where \<^verbatim>\<open>let\<close> keeps its temporal dead zone.
\<close>

definition try_block :: "string \<Rightarrow> string \<Rightarrow> int \<Rightarrow> world \<Rightarrow> (js_error + result) \<times> world" where
  "try_block issueId teamName maxRetries w =
     (if issueId = [] \<or> teamName = [] then (Inr (failure ''Issue ID and team name are required''), w)
      else
        (case next_fault w of
           (Some e, w1) \<Rightarrow> (Inl e, w1)
         | (None, w1) \<Rightarrow>
             (case getDoc (issuesCol w1) issueId of
                None \<Rightarrow> (Inr (failure ''Issue not found''), w1)
              | Some issueData \<Rightarrow>
                  if status issueData \<noteq> Open then (Inr (failure (already_msg (status issueData))), w1)
                  else
                    (let currentTime = clock w1;
                         cachedCount = teamIssueCountCache w1 teamName
                     in if (case cachedCount of
                              None \<Rightarrow> False
                            | Some c \<Rightarrow> currentTime - timestamp c < CACHE_TTL \<and> count c \<ge> 3)
                        then (Inr (failure quota_msg), w1)
                        else retry_loop issueId teamName maxRetries cachedCount currentTime
                               Uninitialised 0 w1))))"

text \<open>
  The whole function. Every path through the \<^verbatim>\<open>try\<close> block and through the handler
  returns, so the statements that follow them (lines 736-744) are never reached.
\<close>

definition occupyIssueTransaction :: "string \<Rightarrow> string \<Rightarrow> int \<Rightarrow> world \<Rightarrow> result \<times> world" where
  "occupyIssueTransaction issueId teamName maxRetries w =
     (case try_block issueId teamName maxRetries w of
        (Inr res, w') \<Rightarrow> (res, w')
      | (Inl err, w') \<Rightarrow> (outer_catch err, w'))"

text \<open>
  The eviction those unreachable lines 736-744 spell out: when \<^verbatim>\<open>Math.random() < 0.1\<close>,
  every entry with \<^verbatim>\<open>now - timestamp > CACHE_TTL\<close> is deleted.
\<close>

definition evict_expired ::
  "real \<Rightarrow> int \<Rightarrow> (string \<rightharpoonup> cache_entry) \<Rightarrow> (string \<rightharpoonup> cache_entry)" where
  "evict_expired draw now cache =
     (if draw < 0.1 then
        (\<lambda>team. case cache team of
                   None \<Rightarrow> None
                 | Some d \<Rightarrow> if now - timestamp d > CACHE_TTL then None else Some d)
      else cache)"

section \<open>The client: \<^verbatim>\<open>AppContext.tsx\<close>\<close>

text \<open>
  The React state the operations read: the logged-in team, the team and issue lists the
  change feed last delivered, and \<^verbatim>\<open>window.navigator.onLine\<close>.
\<close>

record client =
  currentTeam :: "team option"
  teams :: "team list"
  issues :: "issue list"
  onLine :: bool

text \<open>
  The change feed (\<^verbatim>\<open>subscribeToTeams(setTeams)\<close>, \<^verbatim>\<open>subscribeToIssues(setIssues)\<close>)
  delivers full snapshots of the two collections.
\<close>

definition sync :: "world \<Rightarrow> client \<Rightarrow> client" where
  "sync w c = c\<lparr>teams := teamsCol w, issues := issuesCol w\<rparr>"

subsection \<open>Calls to the store\<close>

datatype team_field = Points js_value | Active bool

datatype store_call =
    UpdateTeam string "team_field list"
  | UpdateIssue string "issue_field list"

text \<open>JavaScript truthiness of a number-or-null and of a string-or-null.\<close>

definition truthy_num :: "int option \<Rightarrow> bool" where
  "truthy_num x = (case x of None \<Rightarrow> False | Some n \<Rightarrow> n \<noteq> 0)"

definition truthy_str :: "string option \<Rightarrow> bool" where
  "truthy_str x = (case x of None \<Rightarrow> False | Some s \<Rightarrow> s \<noteq> [])"

text \<open>
  \<^verbatim>\<open>updateIssue\<close> (part_000, lines 457-470) turns the two instants into store
  timestamps, and a falsy instant into null; \<^verbatim>\<open>updateTeam\<close> (lines 328-331) passes
  its fields on.
\<close>

fun convert_timestamp :: "issue_field \<Rightarrow> issue_field" where
  "convert_timestamp (OccupiedAt t) = OccupiedAt (if truthy_num t then t else None)"
| "convert_timestamp (ClosedAt t) = ClosedAt (if truthy_num t then t else None)"
| "convert_timestamp f = f"

definition updateIssue :: "string \<Rightarrow> issue_field list \<Rightarrow> store_call" where
  "updateIssue issueId updates = UpdateIssue issueId (map convert_timestamp updates)"

definition updateTeam :: "string \<Rightarrow> team_field list \<Rightarrow> store_call" where
  "updateTeam teamName updates = UpdateTeam teamName updates"

text \<open>
  What the store does with a call: \<^verbatim>\<open>updateDoc\<close> rewrites the named fields of an
  existing document and rejects when there is none. Awaited calls run in order and the
  first rejection ends the caller.
\<close>

fun set_team_field :: "team_field \<Rightarrow> team \<Rightarrow> team" where
  "set_team_field (Points p) t = t\<lparr>points := p\<rparr>"
| "set_team_field (Active a) t = t\<lparr>active := a\<rparr>"

definition not_found :: js_error where
  "not_found = Error ''No document to update'' (Some ''not-found'')"

fun run_call :: "store_call \<Rightarrow> world \<Rightarrow> js_error + world" where
  "run_call (UpdateIssue k us) w =
     (case getDoc (issuesCol w) k of
        None \<Rightarrow> Inl not_found
      | Some d \<Rightarrow> Inr (w\<lparr>issuesCol := update_doc (issuesCol w) k us\<rparr>))"
| "run_call (UpdateTeam n us) w =
     (case find (\<lambda>t. name t = n) (teamsCol w) of
        None \<Rightarrow> Inl not_found
      | Some d \<Rightarrow>
          Inr (w\<lparr>teamsCol := map (\<lambda>t. if name t = n then fold set_team_field us t else t) (teamsCol w)\<rparr>))"

fun run_calls :: "store_call list \<Rightarrow> world \<Rightarrow> js_error option \<times> world" where
  "run_calls [] w = (None, w)"
| "run_calls (c # cs) w =
     (case run_call c w of
        Inl e \<Rightarrow> (Some e, w)
      | Inr w' \<Rightarrow> run_calls cs w')"

subsection \<open>The expiry sweep: \<^verbatim>\<open>checkExpiredIssues\<close> (lines 186-223)\<close>

text \<open>\<^verbatim>\<open>issue.tags[0]\<close> is undefined for an empty tag list.\<close>

definition first_tag :: "issue \<Rightarrow> string option" where
  "first_tag i = (case tags i of [] \<Rightarrow> None | t # ts \<Rightarrow> Some t)"

definition timeouts :: "string \<rightharpoonup> int" where
  "timeouts = [''easy'' \<mapsto> 20 * 60 * 1000, ''medium'' \<mapsto> 40 * 60 * 1000, ''hard'' \<mapsto> 60 * 60 * 1000]"

definition penalties :: "string \<rightharpoonup> int" where
  "penalties = [''easy'' \<mapsto> 5, ''medium'' \<mapsto> 10, ''hard'' \<mapsto> 15]"

definition pointsMap :: "string \<rightharpoonup> int" where
  "pointsMap = [''easy'' \<mapsto> 10, ''medium'' \<mapsto> 20, ''hard'' \<mapsto> 30]"

text \<open>
  The three tables are object literals, and \<^verbatim>\<open>table[tag]\<close> reads a property: one of
  the table's own, or else one that every object inherits from \<^verbatim>\<open>Object.prototype\<close>
  (its methods, and the accessor \<^verbatim>\<open>__proto__\<close>, which gives \<^verbatim>\<open>Object.prototype\<close>
  itself), or else undefined. An inherited property is a function or an object: it is
  truthy and it is not a number.
\<close>

definition object_prototype_names :: "string list" where
  "object_prototype_names =
     [''constructor'', ''hasOwnProperty'', ''isPrototypeOf'', ''propertyIsEnumerable'',
      ''toLocaleString'', ''toString'', ''valueOf'', ''__proto__'',
      ''__defineGetter__'', ''__defineSetter__'', ''__lookupGetter__'', ''__lookupSetter__'']"

definition inherited_tag :: "string option \<Rightarrow> bool" where
  "inherited_tag tag = (case tag of None \<Rightarrow> False | Some t \<Rightarrow> t \<in> set object_prototype_names)"

text \<open>What \<^verbatim>\<open>table[tag] || dflt\<close> yields: a number, or the inherited property of that name.\<close>

datatype js_member = Value int | Member string

definition lookup_or :: "(string \<rightharpoonup> int) \<Rightarrow> string option \<Rightarrow> int \<Rightarrow> js_member" where
  "lookup_or table tag dflt =
     (case tag of
        None \<Rightarrow> Value dflt
      | Some t \<Rightarrow>
          (case table t of
             Some v \<Rightarrow> if v \<noteq> 0 then Value v else Value dflt
           | None \<Rightarrow> if inherited_tag tag then Member t else Value dflt))"

definition timeLimit :: "string option \<Rightarrow> js_member" where
  "timeLimit tag = lookup_or timeouts tag (40 * 60 * 1000)"

definition penalty :: "string option \<Rightarrow> js_member" where
  "penalty tag = lookup_or penalties tag 0"

text \<open>
  Conversions between numbers and strings. A number is printed in decimal. The text of
  an inherited property is that of V8: \<^verbatim>\<open>[object Object]\<close> for \<^verbatim>\<open>Object.prototype\<close>
  and \<^verbatim>\<open>function f() { [native code] }\<close> for a method \<^verbatim>\<open>f\<close>, the constructor being
  named \<^verbatim>\<open>Object\<close>. A string converts to a number when it is, between ASCII white
  space, empty (0) or an optionally signed run of decimal digits; numerals with a
  fraction, an exponent or a radix prefix are not read (numbers are integers here, and
  the code writes no such string), and anything else is \<^verbatim>\<open>NaN\<close>, written None.
\<close>

fun show_nat :: "nat \<Rightarrow> string" where
  "show_nat n =
     (if n < 10 then [''0123456789'' ! n]
      else show_nat (n div 10) @ [''0123456789'' ! (n mod 10)])"

definition show_int :: "int \<Rightarrow> string" where
  "show_int i = (if i < 0 then CHR ''-'' # show_nat (nat (- i)) else show_nat (nat i))"

definition member_text :: "string \<Rightarrow> string" where
  "member_text k =
     (if k = ''__proto__'' then ''[object Object]''
      else ''function '' @ (if k = ''constructor'' then ''Object'' else k) @ ''() { [native code] }'')"

fun to_text :: "js_value \<Rightarrow> string" where
  "to_text (Number n) = show_int n"
| "to_text NotANumber = ''NaN''"
| "to_text (Text s) = s"










fun plus_js :: "js_value \<Rightarrow> js_member \<Rightarrow> js_value" where
  "plus_js (Number a) (Value b) = Number (a + b)"
| "plus_js NotANumber (Value b) = NotANumber"
| "plus_js (Text s) (Value b) = Text (s @ show_int b)"
| "plus_js x (Member k) = Text (to_text x @ member_text k)"



subsection \<open>\<^verbatim>\<open>closeIssue\<close> (lines 404-417) and \<^verbatim>\<open>updatePrStatus\<close> (lines 424-446)\<close>

text \<open>
  \<^verbatim>\<open>String.prototype.trim\<close> removes, at both ends, the code units that are white
  space or line terminators: TAB, LF, VT, FF, CR, SP, NBSP, the other space separators of
  Unicode (U+1680, U+2000 to U+200A, U+202F, U+205F, U+3000), LS, PS and U+FEFF.
\<close>

definition white_space :: "16 word list" where
  "white_space =
     [0x0009, 0x000A, 0x000B, 0x000C, 0x000D, 0x0020, 0x00A0, 0x1680,
      0x2000, 0x2001, 0x2002, 0x2003, 0x2004, 0x2005, 0x2006, 0x2007, 0x2008, 0x2009, 0x200A,
      0x2028, 0x2029, 0x202F, 0x205F, 0x3000, 0xFEFF]"

definition is_space :: "16 word \<Rightarrow> bool" where
  "is_space c = (c \<in> set white_space)"

definition trim :: "js_string \<Rightarrow> js_string" where
  "trim s = rev (dropWhile is_space (rev (dropWhile is_space s)))"

definition closeIssue :: "string \<Rightarrow> js_string \<Rightarrow> int \<Rightarrow> result \<times> store_call list" where
  "closeIssue issueId url now =
     (if url = [] \<or> trim url = [] then (failure ''PR URL is required'', [])
      else (ok, [updateIssue issueId
                   [Status Closed, ClosedAt (Some now), PrUrl (trim url), PrStatus Pending]]))"

definition awarded :: "string option \<Rightarrow> js_member" where
  "awarded tag = lookup_or pointsMap tag 0"

definition updatePrStatus :: "string \<Rightarrow> pr_status \<Rightarrow> client \<Rightarrow> store_call list" where
  "updatePrStatus issueId st c =
     updateIssue issueId [PrStatus st] #
     (if st = Merged then
        (case find (\<lambda>i. id' i = issueId) (issues c) of
           None \<Rightarrow> []
         | Some i \<Rightarrow>
             if truthy_str (assignedTo i) then
               (case find (\<lambda>t. Some (name t) = assignedTo i) (teams c) of
                  None \<Rightarrow> []
                | Some t \<Rightarrow> [updateTeam (name t) [Points (plus_js (points t) (awarded (first_tag i)))]])
             else [])
      else [])"

subsection \<open>\<^verbatim>\<open>occupyIssue\<close> (lines 290-402)\<close>

definition MAX_RETRIES :: nat where
  "MAX_RETRIES = 1"

definition TIMEOUT_MS :: int where
  "TIMEOUT_MS = 10000"

definition timeout_msg :: string where
  "timeout_msg = ''Transaction timed out. Please try again.''"

definition toLowerCase :: "string \<Rightarrow> string" where
  "toLowerCase s =
     map (\<lambda>c. case map_of (zip ''ABCDEFGHIJKLMNOPQRSTUVWXYZ'' ''abcdefghijklmnopqrstuvwxyz'') c of
                 None \<Rightarrow> c
               | Some l \<Rightarrow> l) s"

definition transientIndicators :: "string list" where
  "transientIndicators =
     [''timed out'', ''network'', ''transport errored'', ''could not reach'',
      ''err_internet_disconnected'', ''err_network_changed'', ''quic'']"

definition isTransient :: "result \<Rightarrow> bool" where
  "isTransient res =
     (let errMsg = toLowerCase (case error res of None \<Rightarrow> [] | Some m \<Rightarrow> m)
      in list_ex (includes_str errMsg) transientIndicators)"

definition next_slow :: "world \<Rightarrow> bool \<times> world" where
  "next_slow w = (case slow w of [] \<Rightarrow> (False, w) | b # bs \<Rightarrow> (b, w\<lparr>slow := bs\<rparr>))"

text \<open>
  One call of the coordinator raced against the 10 s timer (lines 349-367). When the
  timer fires first the caller gets the time-out failure; the call itself is not
  cancelled, and the model lets it run to its end before the caller goes on.
\<close>

definition wrapped ::
  "(string \<Rightarrow> string \<Rightarrow> world \<Rightarrow> result \<times> world) \<Rightarrow> string \<Rightarrow> string \<Rightarrow> world \<Rightarrow> result \<times> world" where
  "wrapped transaction issueId teamName w =
     (case next_slow w of
        (late, w0) \<Rightarrow>
          (case transaction issueId teamName w0 of
             (res, w1) \<Rightarrow>
               if late then (failure timeout_msg, w1\<lparr>clock := clock w1 + TIMEOUT_MS\<rparr>)
               else (res, w1)))"

text \<open>
  \<^verbatim>\<open>attemptTransaction\<close> (lines 344-389); \<^verbatim>\<open>attempt\<close> is the counter's value at
  the loop test. The coordinator is a parameter: part_000 holds two versions of the
  imported \<^verbatim>\<open>occupyIssueTransaction\<close>.
\<close>

function attemptTransaction ::
  "(string \<Rightarrow> string \<Rightarrow> world \<Rightarrow> result \<times> world) \<Rightarrow> string \<Rightarrow> string \<Rightarrow> nat \<Rightarrow> world \<Rightarrow>
   result \<times> world" where
  "attemptTransaction transaction issueId teamName attempt w =
     (if attempt \<le> MAX_RETRIES then
        (case wrapped transaction issueId teamName w of
           (res, w1) \<Rightarrow>
             if success res then (res, w1)
             else if \<not> isTransient res then (res, w1)
             else if attempt + 1 \<le> MAX_RETRIES then
               attemptTransaction transaction issueId teamName (attempt + 1)
                 (sleep (500 * int (attempt + 1)) w1)
             else attemptTransaction transaction issueId teamName (attempt + 1) w1)
      else (failure ''Transaction failed after retries. Please check your connection and try again.'', w))"
  by pat_completeness auto
termination
  by (relation "measure (\<lambda>(transaction, issueId, teamName, attempt, w). MAX_RETRIES + 1 - attempt)") auto

definition optimistic :: "string \<Rightarrow> string \<Rightarrow> int \<Rightarrow> issue list \<Rightarrow> issue list" where
  "optimistic issueId teamName now prev =
     map (\<lambda>i. if id' i = issueId
               then i\<lparr>status := Occupied, assignedTo := Some teamName, occupiedAt := Some now\<rparr>
               else i) prev"

definition occupyIssue ::
  "(string \<Rightarrow> string \<Rightarrow> world \<Rightarrow> result \<times> world) \<Rightarrow> string \<Rightarrow> client \<Rightarrow> world \<Rightarrow>
   result \<times> client \<times> world" where
  "occupyIssue transaction issueId c w =
     (case currentTeam c of
        None \<Rightarrow> (failure ''You must be logged in to occupy an issue.'', c, w)
      | Some t \<Rightarrow>
          if \<not> onLine c then (failure ''No internet connection'', c, w)
          else
            (case find (\<lambda>i. id' i = issueId) (issues c) of
               None \<Rightarrow> (failure ''Issue not found.'', c, w)
             | Some i \<Rightarrow>
                 if status i \<noteq> Open then (failure (already_msg (status i)), c, w)
                 else if occupiedCount (name t) (issues c) \<ge> 3 then (failure quota_msg, c, w)
                 else
                   (let previousIssues = issues c;
                        c1 = c\<lparr>issues := optimistic issueId (name t) (clock w) (issues c)\<rparr>
                    in case attemptTransaction transaction issueId (name t) 0 w of
                         (res, w') \<Rightarrow>
                           if \<not> success res then (res, c1\<lparr>issues := previousIssues\<rparr>, w')
                           else (res, c1, w'))))"

section \<open>Example data\<close>

text \<open>
  A store in which TeamBravo holds three occupied issues and a fourth issue is open; the
  clock stands at 100 s, the cache is empty and no store call fails.
\<close>

definition mk_issue :: "string \<Rightarrow> string \<Rightarrow> status \<Rightarrow> string option \<Rightarrow> int option \<Rightarrow> issue" where
  "mk_issue k tag st a t =
     \<lparr>id' = k, title = ''Fix '' @ k, tags = [tag], status = st, assignedTo = a, occupiedAt = t,
      closedAt = None, prUrl = None, prStatus = None, lastUpdated = None\<rparr>"

definition ex_issues :: "issue list" where
  "ex_issues =
     [mk_issue ''I1'' ''easy'' Occupied (Some ''TeamBravo'') (Some 1000),
      mk_issue ''I2'' ''medium'' Occupied (Some ''TeamBravo'') (Some 1000),
      mk_issue ''I3'' ''hard'' Occupied (Some ''TeamBravo'') (Some 1000),
      mk_issue ''I4'' ''medium'' Open None None]"

definition ex_teams :: "team list" where
  "ex_teams =
     [\<lparr>name = ''TeamBravo'', points = Number 3, active = True\<rparr>,
      \<lparr>name = ''TeamDelta'', points = Number 0, active = True\<rparr>]"

definition ex_world :: world where
  "ex_world =
     \<lparr>issuesCol = ex_issues, teamsCol = ex_teams, teamIssueCountCache = Map.empty,
      clock = 100000, faults = [], slow = [], timers = []\<rparr>"

definition ex_client :: "string \<Rightarrow> client" where
  "ex_client teamName =
     \<lparr>currentTeam = find (\<lambda>t. name t = teamName) ex_teams, teams = ex_teams,
      issues = ex_issues, onLine = True\<rparr>"

text \<open>The example store after TeamBravo has closed its issue I1.\<close>

definition ex_closed :: world where
  "ex_closed =
     snd (run_calls (snd (closeIssue ''I1'' (units ''https://example.org/pr/1'') 200000)) ex_world)"

text \<open>
  The administrator marks the pull request of I1 as merged, the change feed delivers the
  result, and the administrator marks it as merged once more.
\<close>

definition ex_admin :: client where
  "ex_admin = \<lparr>currentTeam = None, teams = [], issues = [], onLine = True\<rparr>"

definition ex_merged :: world where
  "ex_merged = snd (run_calls (updatePrStatus ''I1'' Merged (sync ex_closed ex_admin)) ex_closed)"

definition ex_merged_again :: world where
  "ex_merged_again = snd (run_calls (updatePrStatus ''I1'' Merged (sync ex_merged ex_admin)) ex_merged)"

text \<open>The example store when both calls of the coordinator outlast the client's timer.\<close>

definition ex_stalled :: world where
  "ex_stalled = ex_world\<lparr>slow := [True, True]\<rparr>"


section \<open>Properties of the store and of the transaction bodies\<close>

lemmas ex_defs = ex_world_def ex_issues_def ex_teams_def mk_issue_def ex_client_def

declare retry_loop.simps [simp del]
declare attemptTransaction.simps [simp del]

lemma id_set_field: "id' (set_field f i) = id' i"
  by (cases f) simp_all

lemma id_apply_updates: "id' (apply_updates us i) = id' i"
  unfolding apply_updates_def by (induction us arbitrary: i) (simp_all add: id_set_field)

lemma getDoc_update_doc:
  "getDoc (update_doc col k us) k = map_option (apply_updates us) (getDoc col k)"
  unfolding getDoc_def update_doc_def
  by (induction col) (simp_all add: id_apply_updates)

lemma getDoc_update_doc_other:
  "k \<noteq> j \<Longrightarrow> getDoc (update_doc col j us) k = getDoc col k"
  unfolding getDoc_def update_doc_def
  by (induction col) (simp_all add: id_apply_updates)

lemma update_doc_absent: "k \<notin> id' ` set col \<Longrightarrow> update_doc col k us = col"
  unfolding update_doc_def by (induction col) auto

lemma already_msg_is_already: "is_already (Error (already_msg s) c)"
  by (cases s) (simp_all add: is_already_def already_msg_def)

lemma already_self_is_already: "is_already (Error already_self_msg c)"
  by (simp add: is_already_def already_self_msg_def)

lemma occupy_body_commit:
  "occupy_body t n d = Inr us \<Longrightarrow>
     (\<exists>i. d = Some i \<and> status i = Open \<and> assignedTo i \<noteq> Some t) \<and>
     us = [Status Occupied, AssignedTo (Some t), OccupiedAt (Some n), LastUpdated (Some n)]"
  by (auto simp: occupy_body_def split: option.splits if_splits)

lemma occupy_body_1_commit:
  "occupy_body_1 t n d = Inr us \<Longrightarrow>
     (\<exists>i. d = Some i \<and> status i = Open) \<and>
     us = [Status Occupied, AssignedTo (Some t), OccupiedAt (Some n)]"
  by (auto simp: occupy_body_1_def split: option.splits if_splits)

text \<open>A committed transaction is a transition of the document from open to occupied.\<close>

lemma runTransaction_commit_occupied:
  assumes "runTransaction col k (occupy_body t n) = Inr col'"
  shows "\<exists>i. getDoc col k = Some i \<and> status i = Open \<and>
             getDoc col' k = Some (i\<lparr>status := Occupied, assignedTo := Some t,
                                      occupiedAt := Some n, lastUpdated := Some n\<rparr>)"
proof -
  from assms obtain us where b: "occupy_body t n (getDoc col k) = Inr us"
    and c: "col' = update_doc col k us"
    by (auto simp: runTransaction_def split: sum.splits)
  from occupy_body_commit [OF b] obtain i where i: "getDoc col k = Some i" "status i = Open"
    and us: "us = [Status Occupied, AssignedTo (Some t), OccupiedAt (Some n), LastUpdated (Some n)]"
    by blast
  have "getDoc col' k = Some (apply_updates us i)"
    by (simp add: c getDoc_update_doc i)
  with i us show ?thesis by (simp add: apply_updates_def)
qed

lemma runTransaction_1_commit_occupied:
  assumes "runTransaction col k (occupy_body_1 t n) = Inr col'"
  shows "\<exists>i. getDoc col k = Some i \<and> status i = Open \<and>
             getDoc col' k = Some (i\<lparr>status := Occupied, assignedTo := Some t,
                                      occupiedAt := Some n\<rparr>)"
proof -
  from assms obtain us where b: "occupy_body_1 t n (getDoc col k) = Inr us"
    and c: "col' = update_doc col k us"
    by (auto simp: runTransaction_def split: sum.splits)
  from occupy_body_1_commit [OF b] obtain i where i: "getDoc col k = Some i" "status i = Open"
    and us: "us = [Status Occupied, AssignedTo (Some t), OccupiedAt (Some n)]"
    by blast
  have "getDoc col' k = Some (apply_updates us i)"
    by (simp add: c getDoc_update_doc i)
  with i us show ?thesis by (simp add: apply_updates_def)
qed

text \<open>Once the document is not open, every later transaction throws an "already" error.\<close>

lemma no_commit_when_not_open:
  "getDoc col k = Some i \<Longrightarrow> status i \<noteq> Open \<Longrightarrow>
     commits (serial_claims occupy_body col k as) = 0 \<and>
     (\<forall>r \<in> set (serial_claims occupy_body col k as). \<exists>e. r = Some e \<and> is_already e)"
  by (induction as)
     (auto simp: commits_def runTransaction_def occupy_body_def already_msg_is_already)

lemma no_commit_when_not_open_1:
  "getDoc col k = Some i \<Longrightarrow> status i \<noteq> Open \<Longrightarrow>
     commits (serial_claims occupy_body_1 col k as) = 0 \<and>
     (\<forall>r \<in> set (serial_claims occupy_body_1 col k as). \<exists>e. r = Some e \<and> is_already e)"
  by (induction as)
     (auto simp: commits_def runTransaction_def occupy_body_1_def already_msg_is_already)

lemma at_most_one_commit: "commits (serial_claims occupy_body col k as) \<le> 1"
proof (induction as)
  case Nil
  show ?case by (simp add: commits_def)
next
  case (Cons a as)
  obtain t n where a: "a = (t, n)" by (cases a)
  show ?case
  proof (cases "runTransaction col k (occupy_body t n)")
    case (Inl e)
    with Cons a show ?thesis by (simp add: commits_def)
  next
    case (Inr col')
    from runTransaction_commit_occupied [OF Inr] obtain j where
      "getDoc col' k = Some j" "status j \<noteq> Open" by auto
    then have "commits (serial_claims occupy_body col' k as) = 0"
      using no_commit_when_not_open by blast
    with Inr a show ?thesis by (simp add: commits_def)
  qed
qed

lemma at_most_one_commit_1: "commits (serial_claims occupy_body_1 col k as) \<le> 1"
proof (induction as)
  case Nil
  show ?case by (simp add: commits_def)
next
  case (Cons a as)
  obtain t n where a: "a = (t, n)" by (cases a)
  show ?case
  proof (cases "runTransaction col k (occupy_body_1 t n)")
    case (Inl e)
    with Cons a show ?thesis by (simp add: commits_def)
  next
    case (Inr col')
    from runTransaction_1_commit_occupied [OF Inr] obtain j where
      "getDoc col' k = Some j" "status j \<noteq> Open" by auto
    then have "commits (serial_claims occupy_body_1 col' k as) = 0"
      using no_commit_when_not_open_1 by blast
    with Inr a show ?thesis by (simp add: commits_def)
  qed
qed

lemma failures_are_terminal:
  "getDoc col k = Some i \<Longrightarrow>
     \<forall>r \<in> set (serial_claims occupy_body col k as). r = None \<or> (\<exists>e. r = Some e \<and> is_already e)"
proof (induction as)
  case Nil
  show ?case by simp
next
  case (Cons a as)
  obtain t n where a: "a = (t, n)" by (cases a)
  show ?case
  proof (cases "runTransaction col k (occupy_body t n)")
    case (Inl e)
    have "is_already e" using Inl Cons.prems
      by (auto simp: runTransaction_def occupy_body_def already_msg_is_already
          already_self_is_already split: if_splits)
    with Inl a Cons show ?thesis by simp
  next
    case (Inr col')
    from runTransaction_commit_occupied [OF Inr] obtain j where
      "getDoc col' k = Some j" "status j \<noteq> Open" by auto
    then have "\<forall>r \<in> set (serial_claims occupy_body col' k as). \<exists>e. r = Some e \<and> is_already e"
      using no_commit_when_not_open by blast
    with Inr a show ?thesis by auto
  qed
qed

lemma failures_are_terminal_1:
  "getDoc col k = Some i \<Longrightarrow>
     \<forall>r \<in> set (serial_claims occupy_body_1 col k as). r = None \<or> (\<exists>e. r = Some e \<and> is_already e)"
proof (induction as)
  case Nil
  show ?case by simp
next
  case (Cons a as)
  obtain t n where a: "a = (t, n)" by (cases a)
  show ?case
  proof (cases "runTransaction col k (occupy_body_1 t n)")
    case (Inl e)
    have "is_already e" using Inl Cons.prems
      by (auto simp: runTransaction_def occupy_body_1_def already_msg_is_already split: if_splits)
    with Inl a Cons show ?thesis by simp
  next
    case (Inr col')
    from runTransaction_1_commit_occupied [OF Inr] obtain j where
      "getDoc col' k = Some j" "status j \<noteq> Open" by auto
    then have "\<forall>r \<in> set (serial_claims occupy_body_1 col' k as). \<exists>e. r = Some e \<and> is_already e"
      using no_commit_when_not_open_1 by blast
    with Inr a show ?thesis by auto
  qed
qed

section \<open>Properties of the claim coordinator\<close>

text \<open>
  With \<^verbatim>\<open>lastError\<close> uninitialised the handler of the retry loop throws at its first
  statement, so the loop never goes round: one iteration either returns or throws.
\<close>

lemma retry_loop_uninitialised:
  "retry_loop k t m cc ct Uninitialised a w =
     (if a < m then
        (case try_attempt k t cc ct w of
           (Inr res, w1) \<Rightarrow> (Inr res, w1)
         | (Inl err, w1) \<Rightarrow> (Inl (tdz_error ''lastError''), w1))
      else (Inl (tdz_error ''lastError''), w))"
  by (subst retry_loop.simps)
     (simp add: retry_catch_def assign_var_def retries_exhausted_def read_var_def
           split: prod.splits sum.splits)

lemma next_fault_none: "faults w = [] \<Longrightarrow> next_fault w = (None, w)"
  by (simp add: next_fault_def)

lemmas occupy_defs = occupyIssueTransaction_def try_block_def retry_loop_uninitialised
  try_attempt_def refresh_count_def

lemmas eval_defs = next_fault_def getDoc_def occupiedCount_def teamOccupied_def
  runTransaction_def occupy_body_def update_doc_def apply_updates_def bump_cache_def
  outer_catch_def tdz_error_def failure_def ok_def or_else_def CACHE_TTL_def

lemma timers_next_fault: "timers (snd (next_fault w)) = timers w"
  by (simp add: next_fault_def split: list.splits)

lemma timers_bump_cache: "timers (bump_cache t ct w) = timers w"
  by (simp add: bump_cache_def split: option.splits)

lemma timers_refresh_count: "timers (snd (refresh_count t cc ct w)) = timers w"
  by (simp add: refresh_count_def Let_def timers_next_fault split: prod.splits option.splits)
     (auto simp: next_fault_def split: list.splits)

lemma timers_try_attempt: "timers (snd (try_attempt k t cc ct w)) = timers w"
proof -
  obtain r w1 where r: "refresh_count t cc ct w = (r, w1)" by (cases "refresh_count t cc ct w")
  then have w1: "timers w1 = timers w" using timers_refresh_count [of t cc ct w] by simp
  obtain f w2 where f: "next_fault w1 = (f, w2)" by (cases "next_fault w1")
  then have w2: "timers w2 = timers w1" using timers_next_fault [of w1] by simp
  show ?thesis
    using r f w1 w2
    by (simp add: try_attempt_def timers_bump_cache split: sum.splits option.splits)
qed

lemma timers_retry_loop:
  "timers (snd (retry_loop k t m cc ct Uninitialised a w)) = timers w"
proof -
  obtain r w1 where r: "try_attempt k t cc ct w = (r, w1)" by (cases "try_attempt k t cc ct w")
  then have "timers w1 = timers w" using timers_try_attempt [of k t cc ct w] by simp
  with r show ?thesis by (simp add: retry_loop_uninitialised split: sum.splits)
qed

lemma timers_try_block: "timers (snd (try_block k t m w)) = timers w"
proof -
  obtain f w1 where f: "next_fault w = (f, w1)" by (cases "next_fault w")
  then have "timers w1 = timers w" using timers_next_fault [of w] by simp
  with f show ?thesis
    by (simp add: try_block_def Let_def timers_retry_loop split: option.splits)
qed

lemma never_waits: "timers (snd (occupyIssueTransaction k t m w)) = timers w"
proof -
  obtain r w1 where r: "try_block k t m w = (r, w1)" by (cases "try_block k t m w")
  then have "timers w1 = timers w" using timers_try_block [of k t m w] by simp
  with r show ?thesis by (simp add: occupyIssueTransaction_def split: sum.splits)
qed

lemma quota_second:
  assumes "issueId \<noteq> []" "teamName \<noteq> []" "0 < maxRetries" "faults w = []"
    and "getDoc (issuesCol w) issueId = Some i" "status i = Open"
    and "3 \<le> occupiedCount teamName (issuesCol w)"
    and "case teamIssueCountCache w teamName of
           None \<Rightarrow> True
         | Some c \<Rightarrow> CACHE_TTL \<le> clock w - timestamp c \<or> 3 \<le> count c"
  shows "occupyIssueTransaction issueId teamName maxRetries w = (failure quota_msg, w)"
  using assms
  by (auto simp: occupy_defs next_fault_none Let_def split: option.splits)

lemma quota_first:
  assumes "faults w = []" "3 \<le> occupiedCount teamName (issuesCol w)"
  shows "occupyIssueTransaction_1 issueId teamName w = (failure quota_msg, w)"
  using assms by (simp add: occupyIssueTransaction_1_def next_fault_none)

lemma quota_client:
  assumes "currentTeam c = Some t" "onLine c"
    and "find (\<lambda>i. id' i = issueId) (issues c) = Some i" "status i = Open"
    and "3 \<le> occupiedCount (name t) (issues c)"
  shows "occupyIssue transaction issueId c w = (failure quota_msg, c, w)"
  using assms by (simp add: occupyIssue_def)

lemma success_second:
  assumes "issueId \<noteq> []" "teamName \<noteq> []" "0 < maxRetries" "faults w = []"
    and "getDoc (issuesCol w) issueId = Some i" "status i = Open" "assignedTo i \<noteq> Some teamName"
    and "occupiedCount teamName (issuesCol w) < 3"
    and "case teamIssueCountCache w teamName of
           None \<Rightarrow> True
         | Some c \<Rightarrow> CACHE_TTL \<le> clock w - timestamp c"
  shows "fst (occupyIssueTransaction issueId teamName maxRetries w) = ok \<and>
         getDoc (issuesCol (snd (occupyIssueTransaction issueId teamName maxRetries w))) issueId =
           Some (i\<lparr>status := Occupied, assignedTo := Some teamName,
                   occupiedAt := Some (clock w), lastUpdated := Some (clock w)\<rparr>)"
  using assms
  by (auto simp: occupy_defs next_fault_def Let_def runTransaction_def occupy_body_def bump_cache_def
      getDoc_update_doc apply_updates_def
      split: option.splits)

lemma occupiedCount_after_close:
  assumes "distinct (map id' col)" "j \<in> set col" "teamOccupied teamName j"
    and "\<And>x. status (apply_updates us x) = Closed"
  shows "occupiedCount teamName (update_doc col (id' j) us) + 1 = occupiedCount teamName col"
  using assms(1,2)
proof (induction col)
  case Nil
  then show ?case by simp
next
  case (Cons x xs)
  show ?case
  proof (cases "x = j")
    case True
    with Cons.prems have "id' j \<notin> id' ` set xs" by auto
    then have "update_doc xs (id' j) us = xs" by (rule update_doc_absent)
    then have "update_doc (x # xs) (id' j) us = apply_updates us j # xs"
      using True by (simp add: update_doc_def)
    moreover have "\<not> teamOccupied teamName (apply_updates us j)"
      by (simp add: teamOccupied_def assms(4))
    ultimately show ?thesis using True assms(3) by (simp add: occupiedCount_def)
  next
    case False
    with Cons.prems have j: "j \<in> set xs" and d: "distinct (map id' xs)" and "id' x \<noteq> id' j"
      by auto
    then have "update_doc (x # xs) (id' j) us = x # update_doc xs (id' j) us"
      by (simp add: update_doc_def)
    with Cons.IH [OF d j] show ?thesis by (simp add: occupiedCount_def)
  qed
qed

lemma getDoc_member:
  "distinct (map id' col) \<Longrightarrow> j \<in> set col \<Longrightarrow> getDoc col (id' j) = Some j"
  unfolding getDoc_def by (induction col) auto

lemma close_updates_status:
  "status (apply_updates (map convert_timestamp
      [Status Closed, ClosedAt (Some now), PrUrl u, PrStatus Pending]) x) = Closed"
  by (simp add: apply_updates_def)

lemma claim_after_close:
  assumes d: "distinct (map id' (issuesCol w))" and three: "occupiedCount teamName (issuesCol w) = 3"
    and j: "j \<in> set (issuesCol w)" "teamOccupied teamName j" and url: "trim url \<noteq> []"
    and w1: "w1 = snd (run_calls (snd (closeIssue (id' j) url now)) w)"
    and ids: "issueId \<noteq> []" "teamName \<noteq> []" "0 < maxRetries" and nf: "faults w = []"
    and i: "getDoc (issuesCol w) issueId = Some i" "status i = Open" "assignedTo i \<noteq> Some teamName"
    and cache: "case teamIssueCountCache w teamName of
           None \<Rightarrow> True
         | Some c \<Rightarrow> CACHE_TTL \<le> clock w - timestamp c"
  shows "fst (occupyIssueTransaction issueId teamName maxRetries w1) = ok \<and>
         getDoc (issuesCol (snd (occupyIssueTransaction issueId teamName maxRetries w1))) issueId =
           Some (i\<lparr>status := Occupied, assignedTo := Some teamName,
                   occupiedAt := Some (clock w), lastUpdated := Some (clock w)\<rparr>)"
proof -
  let ?us = "map convert_timestamp [Status Closed, ClosedAt (Some now), PrUrl (trim url), PrStatus Pending]"
  have gj: "getDoc (issuesCol w) (id' j) = Some j" using d j(1) by (rule getDoc_member)
  from url have "url \<noteq> []" by (auto simp: trim_def)
  with url gj w1 have w1': "w1 = w\<lparr>issuesCol := update_doc (issuesCol w) (id' j) ?us\<rparr>"
    by (simp add: closeIssue_def updateIssue_def)
  have ne: "issueId \<noteq> id' j"
  proof
    assume "issueId = id' j"
    with gj i(1) have "i = j" by simp
    with i(2) j(2) show False by (simp add: teamOccupied_def)
  qed
  have "occupiedCount teamName (update_doc (issuesCol w) (id' j) ?us) + 1 =
        occupiedCount teamName (issuesCol w)"
    using d j close_updates_status by (rule occupiedCount_after_close)
  with three have c: "occupiedCount teamName (issuesCol w1) < 3" by (simp add: w1')
  have g: "getDoc (issuesCol w1) issueId = Some i"
    using ne i(1) by (simp add: w1' getDoc_update_doc_other)
  have "fst (occupyIssueTransaction issueId teamName maxRetries w1) = ok \<and>
         getDoc (issuesCol (snd (occupyIssueTransaction issueId teamName maxRetries w1))) issueId =
           Some (i\<lparr>status := Occupied, assignedTo := Some teamName,
                   occupiedAt := Some (clock w1), lastUpdated := Some (clock w1)\<rparr>)"
    using ids(1,2,3) _ g i(2,3) c
  proof (rule success_second)
    show "faults w1 = []" using nf by (simp add: w1')
    show "case teamIssueCountCache w1 teamName of
           None \<Rightarrow> True
         | Some c \<Rightarrow> CACHE_TTL \<le> clock w1 - timestamp c"
      using cache by (simp add: w1' split: option.splits)
  qed
  then show ?thesis by (simp add: w1')
qed

lemma occupied_is_already_resolved:
  assumes "issueId \<noteq> []" "teamName \<noteq> []" "faults w = []"
    and "getDoc (issuesCol w) issueId = Some i" "status i = Occupied"
  shows "occupyIssueTransaction issueId teamName maxRetries w =
           (failure ''This issue is already occupied. Please choose another issue.'', w)"
  using assms by (simp add: occupyIssueTransaction_def try_block_def next_fault_none already_msg_def)

lemma already_self_iff:
  "occupy_body teamName now d = Inl (Error already_self_msg None) \<longleftrightarrow>
     (\<exists>i. d = Some i \<and> status i = Open \<and> assignedTo i = Some teamName)"
proof (cases d)
  case None
  then show ?thesis by (simp add: occupy_body_def already_self_msg_def)
next
  case (Some i)
  then show ?thesis
    by (cases "status i") (simp_all add: occupy_body_def already_self_msg_def already_msg_def)
qed

lemma cache_next_fault: "teamIssueCountCache (snd (next_fault w)) = teamIssueCountCache w"
  by (simp add: next_fault_def split: list.splits)

lemma cache_bump_cache:
  "u \<noteq> t \<Longrightarrow> teamIssueCountCache (bump_cache t ct w) u = teamIssueCountCache w u"
  by (simp add: bump_cache_def split: option.splits)

lemma cache_refresh_count:
  "u \<noteq> t \<Longrightarrow> teamIssueCountCache (snd (refresh_count t cc ct w)) u = teamIssueCountCache w u"
  by (simp add: refresh_count_def Let_def split: prod.splits option.splits)
     (auto simp: next_fault_def split: list.splits)

lemma cache_try_attempt:
  assumes "u \<noteq> t"
  shows "teamIssueCountCache (snd (try_attempt k t cc ct w)) u = teamIssueCountCache w u"
proof -
  obtain r w1 where r: "refresh_count t cc ct w = (r, w1)" by (cases "refresh_count t cc ct w")
  then have w1: "teamIssueCountCache w1 u = teamIssueCountCache w u"
    using cache_refresh_count [OF assms, of cc ct w] by simp
  obtain f w2 where f: "next_fault w1 = (f, w2)" by (cases "next_fault w1")
  then have w2: "teamIssueCountCache w2 = teamIssueCountCache w1"
    using cache_next_fault [of w1] by simp
  show ?thesis
    using r f w1 w2 assms
    by (simp add: try_attempt_def cache_bump_cache split: sum.splits option.splits)
qed

lemma cache_retry_loop:
  assumes "u \<noteq> t"
  shows "teamIssueCountCache (snd (retry_loop k t m cc ct Uninitialised a w)) u =
         teamIssueCountCache w u"
proof -
  obtain r w1 where r: "try_attempt k t cc ct w = (r, w1)" by (cases "try_attempt k t cc ct w")
  then have "teamIssueCountCache w1 u = teamIssueCountCache w u"
    using cache_try_attempt [OF assms, of k cc ct w] by simp
  with r show ?thesis by (simp add: retry_loop_uninitialised split: sum.splits)
qed

lemma cache_try_block:
  assumes "u \<noteq> t"
  shows "teamIssueCountCache (snd (try_block k t m w)) u = teamIssueCountCache w u"
proof -
  obtain f w1 where f: "next_fault w = (f, w1)" by (cases "next_fault w")
  then have "teamIssueCountCache w1 = teamIssueCountCache w" using cache_next_fault [of w] by simp
  with f show ?thesis
    by (simp add: try_block_def Let_def cache_retry_loop [OF assms] split: option.splits)
qed

text \<open>No call removes or changes the cache entry of another team: nothing is ever evicted.\<close>

lemma other_entries_kept:
  assumes "u \<noteq> t"
  shows "teamIssueCountCache (snd (occupyIssueTransaction k t m w)) u = teamIssueCountCache w u"
proof -
  obtain r w1 where r: "try_block k t m w = (r, w1)" by (cases "try_block k t m w")
  then have "teamIssueCountCache w1 u = teamIssueCountCache w u"
    using cache_try_block [OF assms, of k m w] by simp
  with r show ?thesis by (simp add: occupyIssueTransaction_def split: sum.splits)
qed

text \<open>
  What the handler does once its two variables are bound, as in the loop that follows the
  unconditional return (lines 685-697): an "already" error is returned at once, any other
  error is followed by a timer of \<open>min (1000 * (i + 1)) 3000\<close> ms while \<open>i < maxRetries - 1\<close>.
\<close>

lemma retry_catch_bound:
  "retry_catch err m (Bound x) (Bound iv) =
     (if is_already err then Returns (failure (message err))
      else if iv < m - 1 then Retries (min (1000 * (iv + 1)) 3000) (Bound (Some err))
      else FallsThrough (Bound (Some err)))"
  by (simp add: retry_catch_def assign_var_def read_var_def)

section \<open>Properties of the client operations\<close>

declare show_nat.simps [simp del]

lemma inherited_not_own:
  "inherited_tag (Some k) \<Longrightarrow> timeouts k = None \<and> penalties k = None \<and> pointsMap k = None"
  by (auto simp: inherited_tag_def object_prototype_names_def timeouts_def penalties_def
      pointsMap_def)

lemma lookup_inherited:
  "inherited_tag (Some k) \<Longrightarrow>
     timeLimit (Some k) = Member k \<and> penalty (Some k) = Member k \<and> awarded (Some k) = Member k"
  using inherited_not_own [of k]
  by (simp add: timeLimit_def penalty_def awarded_def lookup_or_def)



lemma awarded_table:
  "awarded (Some ''easy'') = Value 10 \<and> awarded (Some ''medium'') = Value 20 \<and>
   awarded (Some ''hard'') = Value 30"
  by (simp add: awarded_def lookup_or_def pointsMap_def)

lemma find_name: "find (\<lambda>t. Some (name t) = Some n) ts = Some t \<Longrightarrow> name t = n"
  by (induction ts) (auto split: if_splits)




lemma name_fold_set_team_field: "name (fold set_team_field us t) = name t"
proof (induction us arbitrary: t)
  case Nil
  show ?case by simp
next
  case (Cons u us)
  have "name (set_team_field u t) = name t" by (cases u) simp_all
  with Cons show ?case by simp
qed

lemma find_team_update:
  "find (\<lambda>t. name t = n) (map (\<lambda>t. if name t = n then fold set_team_field us t else t) ts) =
     map_option (fold set_team_field us) (find (\<lambda>t. name t = n) ts)"
  by (induction ts) (simp_all add: name_fold_set_team_field)


lemma find_map_issue:
  "(\<And>x. id' (f x) = id' x) \<Longrightarrow>
     find (\<lambda>x. id' x = k) (map f xs) = map_option f (find (\<lambda>x. id' x = k) xs)"
  by (induction xs) simp_all

lemma merged_calls:
  assumes "find (\<lambda>x. id' x = issueId) (issues c) = Some i"
    and "assignedTo i = Some n" "n \<noteq> []"
    and "find (\<lambda>t. Some (name t) = assignedTo i) (teams c) = Some t" "points t = Number p"
    and "awarded (first_tag i) = Value a"
  shows "updatePrStatus issueId Merged c =
     [UpdateIssue issueId [PrStatus Merged], UpdateTeam n [Points (Number (p + a))]]"
proof -
  from assms(2,4) have "name t = n" using find_name [of n "teams c" t] by simp
  with assms show ?thesis
    by (simp add: updatePrStatus_def truthy_str_def updateTeam_def updateIssue_def)
qed

lemma merged_ignores_prStatus:
  "updatePrStatus issueId Merged (c\<lparr>issues := map (\<lambda>x. x\<lparr>prStatus := pr\<rparr>) (issues c)\<rparr>) =
   updatePrStatus issueId Merged c"
proof -
  have "find (\<lambda>x. id' x = issueId) (map (\<lambda>x. x\<lparr>prStatus := pr\<rparr>) (issues c)) =
        map_option (\<lambda>x. x\<lparr>prStatus := pr\<rparr>) (find (\<lambda>x. id' x = issueId) (issues c))"
    by (rule find_map_issue) simp
  then show ?thesis
    by (cases "find (\<lambda>x. id' x = issueId) (issues c)")
       (simp_all add: updatePrStatus_def first_tag_def split: option.splits)
qed

lemma merged_effect:
  assumes "find (\<lambda>x. id' x = issueId) (issues c) = Some i"
    and "assignedTo i = Some n" "n \<noteq> []"
    and "find (\<lambda>t. Some (name t) = assignedTo i) (teams c) = Some t" "points t = Number p"
    and "awarded (first_tag i) = Value a"
    and td: "find (\<lambda>t. name t = n) (teamsCol w) = Some td"
    and d: "getDoc (issuesCol w) issueId = Some d"
  shows "fst (run_calls (updatePrStatus issueId Merged c) w) = None \<and>
         find (\<lambda>t. name t = n) (teamsCol (snd (run_calls (updatePrStatus issueId Merged c) w))) =
           Some (td\<lparr>points := Number (p + a)\<rparr>) \<and>
         getDoc (issuesCol (snd (run_calls (updatePrStatus issueId Merged c) w))) issueId =
           Some (d\<lparr>prStatus := Some Merged\<rparr>)"
proof -
  have "updatePrStatus issueId Merged c =
     [UpdateIssue issueId [PrStatus Merged], UpdateTeam n [Points (Number (p + a))]]"
    using assms(1-6) by (rule merged_calls)
  then show ?thesis
    using td d by (simp add: find_team_update getDoc_update_doc apply_updates_def del: fold_simps)
qed

text \<open>
  A second merge of the same issue, once the change feed has delivered the outcome of the
  first, makes the award again.
\<close>

lemma merged_twice:
  assumes sync: "issues c = issuesCol w" "teams c = teamsCol w"
    and i: "find (\<lambda>x. id' x = issueId) (issues c) = Some i"
    and a: "assignedTo i = Some n" "n \<noteq> []"
    and t: "find (\<lambda>t. Some (name t) = assignedTo i) (teams c) = Some t" "points t = Number p"
    and aw: "awarded (first_tag i) = Value a"
  shows "map_option prStatus
           (find (\<lambda>x. id' x = issueId)
              (issues (sync (snd (run_calls (updatePrStatus issueId Merged c) w)) c))) =
           Some (Some Merged) \<and>
         updatePrStatus issueId Merged (sync (snd (run_calls (updatePrStatus issueId Merged c) w)) c) =
           [UpdateIssue issueId [PrStatus Merged], UpdateTeam n [Points (Number (p + a + a))]]"
proof -
  let ?w1 = "snd (run_calls (updatePrStatus issueId Merged c) w)"
  let ?c1 = "sync ?w1 c"
  from t(1) a(1) have tn: "find (\<lambda>t. name t = n) (teamsCol w) = Some t"
    by (simp add: sync(2))
  from i have d: "getDoc (issuesCol w) issueId = Some i"
    by (simp add: getDoc_def sync(1))
  note e = merged_effect [OF i a t aw tn d]
  from e have fi: "find (\<lambda>x. id' x = issueId) (issues ?c1) = Some (i\<lparr>prStatus := Some Merged\<rparr>)"
    by (simp add: sync_def getDoc_def)
  from e a(1) have ft: "find (\<lambda>t. Some (name t) = assignedTo (i\<lparr>prStatus := Some Merged\<rparr>)) (teams ?c1) =
      Some (t\<lparr>points := Number (p + a)\<rparr>)"
    by (simp add: sync_def)
  have "updatePrStatus issueId Merged ?c1 =
     [UpdateIssue issueId [PrStatus Merged], UpdateTeam n [Points (Number (p + a + a))]]"
  proof (rule merged_calls [OF fi _ a(2) ft])
    show "assignedTo (i\<lparr>prStatus := Some Merged\<rparr>) = Some n" using a(1) by simp
    show "points (t\<lparr>points := Number (p + a)\<rparr>) = Number (p + a)" by simp
    show "awarded (first_tag (i\<lparr>prStatus := Some Merged\<rparr>)) = Value a"
      using aw by (simp add: first_tag_def)
  qed
  with fi show ?thesis by simp
qed

lemma merged_store_award:
  assumes sync: "issues c = issuesCol w" "teams c = teamsCol w"
    and i: "find (\<lambda>x. id' x = issueId) (issues c) = Some i"
    and a: "assignedTo i = Some n" "n \<noteq> []"
    and t: "find (\<lambda>t. Some (name t) = assignedTo i) (teams c) = Some t" "points t = Number p"
    and aw: "awarded (first_tag i) = Value a"
  shows "find (\<lambda>t. name t = n) (teamsCol w) = Some t \<and>
         find (\<lambda>t. name t = n) (teamsCol (snd (run_calls (updatePrStatus issueId Merged c) w))) =
           Some (t\<lparr>points := Number (p + a)\<rparr>)"
proof -
  from t(1) a(1) have tn: "find (\<lambda>t. name t = n) (teamsCol w) = Some t"
    by (simp add: sync(2))
  from i have d: "getDoc (issuesCol w) issueId = Some i"
    by (simp add: getDoc_def sync(1))
  from merged_effect [OF i a t aw tn d] tn show ?thesis by simp
qed

lemma occupyIssue_failure_restores:
  "\<not> success (fst (occupyIssue transaction issueId c w)) \<Longrightarrow>
     fst (snd (occupyIssue transaction issueId c w)) = c"
  by (auto simp: occupyIssue_def Let_def split: option.splits prod.splits if_splits)

lemma occupyIssue_reaches:
  assumes "currentTeam c = Some t" "onLine c"
    and "find (\<lambda>x. id' x = issueId) (issues c) = Some i" "status i = Open"
    and "occupiedCount (name t) (issues c) < 3"
  shows "occupyIssue transaction issueId c w =
     (fst (attemptTransaction transaction issueId (name t) 0 w),
      (if success (fst (attemptTransaction transaction issueId (name t) 0 w))
       then c\<lparr>issues := optimistic issueId (name t) (clock w) (issues c)\<rparr>
       else c),
      snd (attemptTransaction transaction issueId (name t) 0 w))"
  using assms by (auto simp: occupyIssue_def Let_def split: prod.splits)

text \<open>A string trims to the empty string exactly when all its code units are white space.\<close>

lemma trim_blank: "trim s = [] \<longleftrightarrow> list_all is_space s"
proof -
  have "trim s = [] \<longleftrightarrow> (\<forall>x \<in> set (dropWhile is_space s). is_space x)"
    by (simp add: trim_def dropWhile_eq_Nil_conv)
  also have "\<dots> \<longleftrightarrow> dropWhile is_space s = []"
  proof
    assume a: "\<forall>x \<in> set (dropWhile is_space s). is_space x"
    show "dropWhile is_space s = []"
    proof (rule ccontr)
      assume n: "dropWhile is_space s \<noteq> []"
      then have "\<not> is_space (hd (dropWhile is_space s))" by (rule hd_dropWhile)
      moreover from n have "hd (dropWhile is_space s) \<in> set (dropWhile is_space s)" by simp
      ultimately show False using a by blast
    qed
  next
    assume "dropWhile is_space s = []"
    then show "\<forall>x \<in> set (dropWhile is_space s). is_space x"
      by (metis empty_iff empty_set)
  qed
  also have "\<dots> \<longleftrightarrow> list_all is_space s"
    by (simp add: dropWhile_eq_Nil_conv list_all_iff)
  finally show ?thesis .
qed

lemma closeIssue_blank:
  "url = [] \<or> trim url = [] \<Longrightarrow> closeIssue issueId url now = (failure ''PR URL is required'', [])"
  by (auto simp: closeIssue_def)

lemma closeIssue_given:
  "trim url \<noteq> [] \<Longrightarrow> now \<noteq> 0 \<Longrightarrow>
     closeIssue issueId url now =
       (ok, [UpdateIssue issueId [Status Closed, ClosedAt (Some now), PrUrl (trim url), PrStatus Pending]])"
  by (auto simp: closeIssue_def updateIssue_def truthy_num_def trim_def)

lemma updatePrStatus_other:
  "st \<noteq> Merged \<Longrightarrow> updatePrStatus issueId st c = [UpdateIssue issueId [PrStatus st]]"
  by (simp add: updatePrStatus_def updateIssue_def)

lemma map_prStatus_absent:
  "getDoc col k = None \<Longrightarrow> map (\<lambda>x. if id' x = k then x\<lparr>prStatus := Some st\<rparr> else x) col = col"
  unfolding getDoc_def by (induction col) (auto split: if_splits)

lemma prStatus_only_effect:
  assumes "st = Approved \<or> st = Rejected"
  shows "teamsCol (snd (run_calls (updatePrStatus issueId st c) w)) = teamsCol w \<and>
         issuesCol (snd (run_calls (updatePrStatus issueId st c) w)) =
           map (\<lambda>x. if id' x = issueId then x\<lparr>prStatus := Some st\<rparr> else x) (issuesCol w)"
proof -
  from assms have c: "updatePrStatus issueId st c = [UpdateIssue issueId [PrStatus st]]"
    by (auto simp: updatePrStatus_other)
  show ?thesis
  proof (cases "getDoc (issuesCol w) issueId")
    case None
    then show ?thesis by (simp add: c map_prStatus_absent)
  next
    case (Some d)
    then show ?thesis by (simp add: c update_doc_def apply_updates_def)
  qed
qed

lemmas client_eval = closeIssue_def trim_def is_space_def white_space_def units_def updateIssue_def
  updateTeam_def updatePrStatus_def sync_def truthy_str_def truthy_num_def first_tag_def awarded_def
  lookup_or_def pointsMap_def inherited_tag_def object_prototype_names_def getDoc_def
  update_doc_def apply_updates_def

lemmas attempt_eval = attemptTransaction.simps wrapped_def next_slow_def isTransient_def
  toLowerCase_def transientIndicators_def timeout_msg_def MAX_RETRIES_def sleep_def TIMEOUT_MS_def

section \<open>Exactly one claim per issue\<close>

text \<open>
  C1. For every issue, among claim attempts whose transactions the store serialises, at
  most one commits, and a commit is a transition of the issue from open to occupied by
  the committing team; every other attempt on an existing issue throws an error whose
  message contains "already", the kind the retry handler does not retry. This holds for
  the transaction bodies of both versions of \<^verbatim>\<open>occupyIssueTransaction\<close>.
\<close>

theorem claim_at_most_once:
  "commits (serial_claims occupy_body col k attempts) \<le> 1 \<and>
   commits (serial_claims occupy_body_1 col k attempts) \<le> 1 \<and>
   (getDoc col k \<noteq> None \<longrightarrow>
      (\<forall>r \<in> set (serial_claims occupy_body col k attempts).
          r = None \<or> (\<exists>e. r = Some e \<and> is_already e)) \<and>
      (\<forall>r \<in> set (serial_claims occupy_body_1 col k attempts).
          r = None \<or> (\<exists>e. r = Some e \<and> is_already e))) \<and>
   (runTransaction col k (occupy_body teamName now) = Inr col2 \<longrightarrow>
      (\<exists>i. getDoc col k = Some i \<and> status i = Open \<and>
           getDoc col2 k = Some (i\<lparr>status := Occupied, assignedTo := Some teamName,
                                    occupiedAt := Some now, lastUpdated := Some now\<rparr>))) \<and>
   (runTransaction col k (occupy_body_1 teamName now) = Inr col1 \<longrightarrow>
      (\<exists>i. getDoc col k = Some i \<and> status i = Open \<and>
           getDoc col1 k = Some (i\<lparr>status := Occupied, assignedTo := Some teamName,
                                    occupiedAt := Some now\<rparr>)))"
proof (intro conjI impI)
  show "commits (serial_claims occupy_body col k attempts) \<le> 1"
    by (rule at_most_one_commit)
  show "commits (serial_claims occupy_body_1 col k attempts) \<le> 1"
    by (rule at_most_one_commit_1)
next
  assume "getDoc col k \<noteq> None"
  then obtain i where "getDoc col k = Some i" by blast
  then show "\<forall>r \<in> set (serial_claims occupy_body col k attempts).
          r = None \<or> (\<exists>e. r = Some e \<and> is_already e)"
    by (rule failures_are_terminal)
next
  assume "getDoc col k \<noteq> None"
  then obtain i where "getDoc col k = Some i" by blast
  then show "\<forall>r \<in> set (serial_claims occupy_body_1 col k attempts).
          r = None \<or> (\<exists>e. r = Some e \<and> is_already e)"
    by (rule failures_are_terminal_1)
next
  assume "runTransaction col k (occupy_body teamName now) = Inr col2"
  then show "\<exists>i. getDoc col k = Some i \<and> status i = Open \<and>
           getDoc col2 k = Some (i\<lparr>status := Occupied, assignedTo := Some teamName,
                                    occupiedAt := Some now, lastUpdated := Some now\<rparr>)"
    by (rule runTransaction_commit_occupied)
next
  assume "runTransaction col k (occupy_body_1 teamName now) = Inr col1"
  then show "\<exists>i. getDoc col k = Some i \<and> status i = Open \<and>
           getDoc col1 k = Some (i\<lparr>status := Occupied, assignedTo := Some teamName,
                                    occupiedAt := Some now\<rparr>)"
    by (rule runTransaction_1_commit_occupied)
qed

theorem claim_at_most_once_witness:
  "getDoc ex_issues ''I4'' \<noteq> None \<and>
   runTransaction ex_issues ''I4'' (occupy_body ''TeamBravo'' 100) =
     Inr (update_doc ex_issues ''I4''
            [Status Occupied, AssignedTo (Some ''TeamBravo''), OccupiedAt (Some 100), LastUpdated (Some 100)]) \<and>
   runTransaction ex_issues ''I4'' (occupy_body_1 ''TeamBravo'' 100) =
     Inr (update_doc ex_issues ''I4''
            [Status Occupied, AssignedTo (Some ''TeamBravo''), OccupiedAt (Some 100)]) \<and>
   serial_claims occupy_body ex_issues ''I4''
      [(''TeamBravo'', 100), (''TeamDelta'', 101), (''TeamBravo'', 102)] =
     [None, Some (Error (already_msg Occupied) None), Some (Error (already_msg Occupied) None)] \<and>
   commits (serial_claims occupy_body ex_issues ''I4''
      [(''TeamBravo'', 100), (''TeamDelta'', 101), (''TeamBravo'', 102)]) \<le> 1 \<and>
   is_already (Error (already_msg Occupied) None)"
proof -
  have g: "getDoc ex_issues ''I4'' \<noteq> None"
    by (simp add: getDoc_def ex_defs)
  have r2: "runTransaction ex_issues ''I4'' (occupy_body ''TeamBravo'' 100) =
     Inr (update_doc ex_issues ''I4''
            [Status Occupied, AssignedTo (Some ''TeamBravo''), OccupiedAt (Some 100), LastUpdated (Some 100)])"
    by (simp add: runTransaction_def occupy_body_def getDoc_def ex_defs)
  have r1: "runTransaction ex_issues ''I4'' (occupy_body_1 ''TeamBravo'' 100) =
     Inr (update_doc ex_issues ''I4''
            [Status Occupied, AssignedTo (Some ''TeamBravo''), OccupiedAt (Some 100)])"
    by (simp add: runTransaction_def occupy_body_1_def getDoc_def ex_defs)
  have s: "serial_claims occupy_body ex_issues ''I4''
      [(''TeamBravo'', 100), (''TeamDelta'', 101), (''TeamBravo'', 102)] =
     [None, Some (Error (already_msg Occupied) None), Some (Error (already_msg Occupied) None)]"
    by (simp add: runTransaction_def occupy_body_def getDoc_def update_doc_def apply_updates_def ex_defs)
  note t = claim_at_most_once [of ex_issues "''I4''"
        "[(''TeamBravo'', 100), (''TeamDelta'', 101), (''TeamBravo'', 102)]" "''TeamBravo''" 100]
  from t have c: "commits (serial_claims occupy_body ex_issues ''I4''
      [(''TeamBravo'', 100), (''TeamDelta'', 101), (''TeamBravo'', 102)]) \<le> 1"
    by (rule conjunct1)
  from t g have f: "\<forall>r \<in> set (serial_claims occupy_body ex_issues ''I4''
                 [(''TeamBravo'', 100), (''TeamDelta'', 101), (''TeamBravo'', 102)]).
       r = None \<or> (\<exists>e. r = Some e \<and> is_already e)"
    by blast
  from f s have a: "is_already (Error (already_msg Occupied) None)"
    by simp
  from g r2 r1 s c a show ?thesis by (intro conjI)
qed


section \<open>The quota of three occupied issues\<close>

text \<open>
  C2, as stated, fails: a cache entry younger than 5000 ms that holds a count below 3
  makes the second \<^verbatim>\<open>occupyIssueTransaction\<close> skip the quota query, and the team's
  fourth claim commits.
\<close>

theorem quota_stale_cache_counterexample:
  "occupiedCount ''TeamBravo'' (issuesCol ex_world) = 3 \<and>
   fst (occupyIssueTransaction ''I4'' ''TeamBravo'' 3
     (ex_world\<lparr>teamIssueCountCache := [''TeamBravo'' \<mapsto> \<lparr>count = 2, timestamp = 99000\<rparr>]\<rparr>)) = ok \<and>
   getDoc (issuesCol (snd (occupyIssueTransaction ''I4'' ''TeamBravo'' 3
     (ex_world\<lparr>teamIssueCountCache := [''TeamBravo'' \<mapsto> \<lparr>count = 2, timestamp = 99000\<rparr>]\<rparr>)))) ''I4'' =
     Some ((mk_issue ''I4'' ''medium'' Occupied (Some ''TeamBravo'') (Some 100000))
             \<lparr>lastUpdated := Some 100000\<rparr>)"
  by (simp add: occupy_defs eval_defs ex_defs)

text \<open>
  C2, amended. For a team with at least 3 occupied issues in the store, and no store call
  failing: the first \<^verbatim>\<open>occupyIssueTransaction\<close> returns the quota failure and changes
  nothing; the second does so when the ids are not empty, the issue exists and is open,
  \<^verbatim>\<open>maxRetries\<close> is positive and the team's cache entry is absent, at least 5000 ms old
  or holds a count of at least 3; the client's \<^verbatim>\<open>occupyIssue\<close> does so, without calling
  the coordinator, when a team is logged in, the client is on line and the issue is open
  in the local list in which the team holds at least 3 occupied issues. After one of
  exactly three occupied issues of the team is closed by \<^verbatim>\<open>closeIssue\<close>, a claim of the
  team on an open issue not assigned to it succeeds (cache entry absent or at least
  5000 ms old) and occupies the issue.
\<close>

theorem quota_enforced:
  "(faults w = [] \<and> 3 \<le> occupiedCount teamName (issuesCol w) \<longrightarrow>
      occupyIssueTransaction_1 issueId teamName w = (failure quota_msg, w)) \<and>
   (issueId \<noteq> [] \<and> teamName \<noteq> [] \<and> 0 < maxRetries \<and> faults w = [] \<and>
    getDoc (issuesCol w) issueId = Some i \<and> status i = Open \<and>
    3 \<le> occupiedCount teamName (issuesCol w) \<and>
    (case teamIssueCountCache w teamName of
       None \<Rightarrow> True
     | Some c \<Rightarrow> CACHE_TTL \<le> clock w - timestamp c \<or> 3 \<le> count c) \<longrightarrow>
      occupyIssueTransaction issueId teamName maxRetries w = (failure quota_msg, w)) \<and>
   (currentTeam c = Some t \<and> onLine c \<and>
    find (\<lambda>x. id' x = issueId) (issues c) = Some li \<and> status li = Open \<and>
    3 \<le> occupiedCount (name t) (issues c) \<longrightarrow>
      occupyIssue transaction issueId c w = (failure quota_msg, c, w)) \<and>
   (distinct (map id' (issuesCol w)) \<and> occupiedCount teamName (issuesCol w) = 3 \<and>
    j \<in> set (issuesCol w) \<and> teamOccupied teamName j \<and> trim url \<noteq> [] \<and>
    w1 = snd (run_calls (snd (closeIssue (id' j) url now)) w) \<and>
    issueId \<noteq> [] \<and> teamName \<noteq> [] \<and> 0 < maxRetries \<and> faults w = [] \<and>
    getDoc (issuesCol w) issueId = Some i \<and> status i = Open \<and> assignedTo i \<noteq> Some teamName \<and>
    (case teamIssueCountCache w teamName of
       None \<Rightarrow> True
     | Some c \<Rightarrow> CACHE_TTL \<le> clock w - timestamp c) \<longrightarrow>
      fst (occupyIssueTransaction issueId teamName maxRetries w1) = ok \<and>
      getDoc (issuesCol (snd (occupyIssueTransaction issueId teamName maxRetries w1))) issueId =
        Some (i\<lparr>status := Occupied, assignedTo := Some teamName,
                occupiedAt := Some (clock w), lastUpdated := Some (clock w)\<rparr>))"
proof (intro conjI impI)
  assume "faults w = [] \<and> 3 \<le> occupiedCount teamName (issuesCol w)"
  then show "occupyIssueTransaction_1 issueId teamName w = (failure quota_msg, w)"
    using quota_first by blast
next
  assume "issueId \<noteq> [] \<and> teamName \<noteq> [] \<and> 0 < maxRetries \<and> faults w = [] \<and>
    getDoc (issuesCol w) issueId = Some i \<and> status i = Open \<and>
    3 \<le> occupiedCount teamName (issuesCol w) \<and>
    (case teamIssueCountCache w teamName of
       None \<Rightarrow> True
     | Some c \<Rightarrow> CACHE_TTL \<le> clock w - timestamp c \<or> 3 \<le> count c)"
  then show "occupyIssueTransaction issueId teamName maxRetries w = (failure quota_msg, w)"
    using quota_second [of issueId teamName maxRetries w i] by blast
next
  assume "currentTeam c = Some t \<and> onLine c \<and>
    find (\<lambda>x. id' x = issueId) (issues c) = Some li \<and> status li = Open \<and>
    3 \<le> occupiedCount (name t) (issues c)"
  then show "occupyIssue transaction issueId c w = (failure quota_msg, c, w)"
    using quota_client [of c t issueId li] by blast
next
  assume a: "distinct (map id' (issuesCol w)) \<and> occupiedCount teamName (issuesCol w) = 3 \<and>
    j \<in> set (issuesCol w) \<and> teamOccupied teamName j \<and> trim url \<noteq> [] \<and>
    w1 = snd (run_calls (snd (closeIssue (id' j) url now)) w) \<and>
    issueId \<noteq> [] \<and> teamName \<noteq> [] \<and> 0 < maxRetries \<and> faults w = [] \<and>
    getDoc (issuesCol w) issueId = Some i \<and> status i = Open \<and> assignedTo i \<noteq> Some teamName \<and>
    (case teamIssueCountCache w teamName of
       None \<Rightarrow> True
     | Some c \<Rightarrow> CACHE_TTL \<le> clock w - timestamp c)"
  have r: "fst (occupyIssueTransaction issueId teamName maxRetries w1) = ok \<and>
      getDoc (issuesCol (snd (occupyIssueTransaction issueId teamName maxRetries w1))) issueId =
        Some (i\<lparr>status := Occupied, assignedTo := Some teamName,
                occupiedAt := Some (clock w), lastUpdated := Some (clock w)\<rparr>)"
    using a claim_after_close [of w teamName j url w1 now issueId maxRetries i] by blast
  from r show "fst (occupyIssueTransaction issueId teamName maxRetries w1) = ok"
    by (rule conjunct1)
  from r show "getDoc (issuesCol (snd (occupyIssueTransaction issueId teamName maxRetries w1))) issueId =
        Some (i\<lparr>status := Occupied, assignedTo := Some teamName,
                occupiedAt := Some (clock w), lastUpdated := Some (clock w)\<rparr>)"
    by (rule conjunct2)
qed

theorem quota_enforced_witness:
  "occupiedCount ''TeamBravo'' (issuesCol ex_world) = 3 \<and>
   occupyIssueTransaction_1 ''I4'' ''TeamBravo'' ex_world = (failure quota_msg, ex_world) \<and>
   occupyIssueTransaction ''I4'' ''TeamBravo'' 3 ex_world = (failure quota_msg, ex_world) \<and>
   occupyIssue (\<lambda>k n. occupyIssueTransaction k n 3) ''I4'' (ex_client ''TeamBravo'') ex_world =
     (failure quota_msg, ex_client ''TeamBravo'', ex_world) \<and>
   occupiedCount ''TeamBravo'' (issuesCol ex_closed) = 2 \<and>
   fst (occupyIssueTransaction ''I4'' ''TeamBravo'' 3 ex_closed) = ok"
proof -
  let ?i = "mk_issue ''I4'' ''medium'' Open None None"
  let ?j = "mk_issue ''I1'' ''easy'' Occupied (Some ''TeamBravo'') (Some 1000)"
  let ?t = "\<lparr>name = ''TeamBravo'', points = Number 3, active = True\<rparr>"
  note t = quota_enforced [where w = ex_world and teamName = "''TeamBravo''" and issueId = "''I4''"
      and maxRetries = 3 and i = ?i and c = "ex_client ''TeamBravo''" and t = ?t and li = ?i
      and transaction = "\<lambda>k n. occupyIssueTransaction k n 3" and j = ?j
      and url = "units ''https://example.org/pr/1''" and ?w1.0 = ex_closed and now = 200000]
  have n3: "occupiedCount ''TeamBravo'' (issuesCol ex_world) = 3"
    by (simp add: occupiedCount_def teamOccupied_def ex_defs)
  have h1: "faults ex_world = [] \<and> 3 \<le> occupiedCount ''TeamBravo'' (issuesCol ex_world)"
    using n3 by (simp add: ex_world_def)
  have h2: "''I4'' \<noteq> [] \<and> ''TeamBravo'' \<noteq> [] \<and> 0 < (3::int) \<and> faults ex_world = [] \<and>
    getDoc (issuesCol ex_world) ''I4'' = Some ?i \<and> status ?i = Open \<and>
    3 \<le> occupiedCount ''TeamBravo'' (issuesCol ex_world) \<and>
    (case teamIssueCountCache ex_world ''TeamBravo'' of
       None \<Rightarrow> True
     | Some c \<Rightarrow> CACHE_TTL \<le> clock ex_world - timestamp c \<or> 3 \<le> count c)"
    using n3 by (simp add: getDoc_def ex_defs)
  have h3: "currentTeam (ex_client ''TeamBravo'') = Some ?t \<and> onLine (ex_client ''TeamBravo'') \<and>
    find (\<lambda>x. id' x = ''I4'') (issues (ex_client ''TeamBravo'')) = Some ?i \<and> status ?i = Open \<and>
    3 \<le> occupiedCount (name ?t) (issues (ex_client ''TeamBravo''))"
    by (simp add: occupiedCount_def teamOccupied_def ex_defs)
  have h4: "distinct (map id' (issuesCol ex_world)) \<and> occupiedCount ''TeamBravo'' (issuesCol ex_world) = 3 \<and>
    ?j \<in> set (issuesCol ex_world) \<and> teamOccupied ''TeamBravo'' ?j \<and>
    trim (units ''https://example.org/pr/1'') \<noteq> [] \<and>
    ex_closed =
      snd (run_calls (snd (closeIssue (id' ?j) (units ''https://example.org/pr/1'') 200000)) ex_world) \<and>
    ''I4'' \<noteq> [] \<and> ''TeamBravo'' \<noteq> [] \<and> 0 < (3::int) \<and> faults ex_world = [] \<and>
    getDoc (issuesCol ex_world) ''I4'' = Some ?i \<and> status ?i = Open \<and>
    assignedTo ?i \<noteq> Some ''TeamBravo'' \<and>
    (case teamIssueCountCache ex_world ''TeamBravo'' of
       None \<Rightarrow> True
     | Some c \<Rightarrow> CACHE_TTL \<le> clock ex_world - timestamp c)"
    using n3
    by (simp add: getDoc_def teamOccupied_def trim_def is_space_def white_space_def units_def
        ex_closed_def ex_defs)
  have c1: "occupyIssueTransaction_1 ''I4'' ''TeamBravo'' ex_world = (failure quota_msg, ex_world)"
    using t h1 by blast
  have c2: "occupyIssueTransaction ''I4'' ''TeamBravo'' 3 ex_world = (failure quota_msg, ex_world)"
    using t h2 by blast
  have c3: "occupyIssue (\<lambda>k n. occupyIssueTransaction k n 3) ''I4'' (ex_client ''TeamBravo'') ex_world =
     (failure quota_msg, ex_client ''TeamBravo'', ex_world)"
    using t h3 by blast
  have c4: "fst (occupyIssueTransaction ''I4'' ''TeamBravo'' 3 ex_closed) = ok"
    using t h4 by blast
  have n2: "occupiedCount ''TeamBravo'' (issuesCol ex_closed) = 2"
    by (simp add: ex_closed_def closeIssue_def trim_def is_space_def white_space_def units_def
        updateIssue_def getDoc_def update_doc_def apply_updates_def occupiedCount_def
        teamOccupied_def ex_defs)
  from n3 c1 c2 c3 n2 c4 show ?thesis by (intro conjI)
qed


section \<open>A claim on an issue the team already holds\<close>

text \<open>
  C3, as stated, fails: for an issue that is occupied by the claiming team the second
  \<^verbatim>\<open>occupyIssueTransaction\<close> returns the generic "already occupied" failure, since the
  status is tested before the assignee.
\<close>

theorem already_self_counterexample:
  "getDoc (issuesCol ex_world) ''I1'' =
     Some (mk_issue ''I1'' ''easy'' Occupied (Some ''TeamBravo'') (Some 1000)) \<and>
   fst (occupyIssueTransaction ''I1'' ''TeamBravo'' 3 ex_world) =
     failure ''This issue is already occupied. Please choose another issue.'' \<and>
   fst (occupyIssueTransaction ''I1'' ''TeamBravo'' 3 ex_world) \<noteq> failure already_self_msg"
  by (simp add: occupy_defs eval_defs ex_defs already_msg_def already_self_msg_def)

text \<open>
  C3, amended. For every issue whose status is occupied, whoever holds it and so also
  when the claiming team does, \<^verbatim>\<open>occupyIssueTransaction\<close> (ids not empty, the read of
  the issue not failing) returns the failure "This issue is already occupied. Please
  choose another issue." and changes nothing; it is never a success. The transaction
  body throws "Your team is already assigned to this issue." exactly for an issue that is
  open and whose assignedTo equals the claiming team.
\<close>

theorem occupied_issue_already_resolved:
  "(issueId \<noteq> [] \<and> teamName \<noteq> [] \<and> faults w = [] \<and>
    getDoc (issuesCol w) issueId = Some i \<and> status i = Occupied \<longrightarrow>
      occupyIssueTransaction issueId teamName maxRetries w =
        (failure ''This issue is already occupied. Please choose another issue.'', w)) \<and>
   (occupy_body teamName now d = Inl (Error already_self_msg None) \<longleftrightarrow>
      (\<exists>x. d = Some x \<and> status x = Open \<and> assignedTo x = Some teamName))"
  using occupied_is_already_resolved [of issueId teamName w i maxRetries]
    already_self_iff [of teamName now d]
  by blast

theorem occupied_issue_already_resolved_witness:
  "getDoc (issuesCol ex_world) ''I1'' =
     Some (mk_issue ''I1'' ''easy'' Occupied (Some ''TeamBravo'') (Some 1000)) \<and>
   occupyIssueTransaction ''I1'' ''TeamBravo'' 3 ex_world =
     (failure ''This issue is already occupied. Please choose another issue.'', ex_world) \<and>
   occupy_body ''TeamBravo'' 100000 (Some (mk_issue ''I5'' ''easy'' Open (Some ''TeamBravo'') None)) =
     Inl (Error already_self_msg None)"
proof -
  let ?i = "mk_issue ''I1'' ''easy'' Occupied (Some ''TeamBravo'') (Some 1000)"
  let ?d = "Some (mk_issue ''I5'' ''easy'' Open (Some ''TeamBravo'') None)"
  note t = occupied_issue_already_resolved [where issueId = "''I1''" and teamName = "''TeamBravo''"
      and w = ex_world and i = ?i and maxRetries = 3 and now = 100000 and d = ?d]
  have g: "getDoc (issuesCol ex_world) ''I1'' = Some ?i"
    by (simp add: getDoc_def ex_defs)
  have h: "''I1'' \<noteq> [] \<and> ''TeamBravo'' \<noteq> [] \<and> faults ex_world = [] \<and>
    getDoc (issuesCol ex_world) ''I1'' = Some ?i \<and> status ?i = Occupied"
    using g by (simp add: ex_defs)
  have e: "\<exists>x. ?d = Some x \<and> status x = Open \<and> assignedTo x = Some ''TeamBravo''"
    by (simp add: mk_issue_def)
  have c1: "occupyIssueTransaction ''I1'' ''TeamBravo'' 3 ex_world =
     (failure ''This issue is already occupied. Please choose another issue.'', ex_world)"
    using t h by blast
  have c2: "occupy_body ''TeamBravo'' 100000 ?d = Inl (Error already_self_msg None)"
    using t e by blast
  from g c1 c2 show ?thesis by (intro conjI)
qed

section \<open>Retries\<close>

text \<open>
  C4 fails on the code. The handler of the retry loop first assigns \<^verbatim>\<open>lastError\<close>,
  which is declared by \<^verbatim>\<open>let\<close> only after the loop's unconditional return, and then
  reads \<^verbatim>\<open>i\<close>, which is declared nowhere. Here the store accepts the reads and
  rejects the first transaction with "network error", an error that is not an "already"
  error; \<^verbatim>\<open>maxRetries\<close> is 3 and the script of faults is then exhausted, so a second
  attempt would commit. The call returns the failure carrying the ReferenceError's
  message after that one attempt: no timer is awaited and the issue stays open.
\<close>

theorem transient_error_not_retried:
  "\<not> is_already (Error ''network error'' None) \<and>
   occupyIssueTransaction ''I4'' ''TeamDelta'' 3
     (ex_world\<lparr>faults := [None, None, Some (Error ''network error'' None)]\<rparr>) =
     (failure (message (tdz_error ''lastError'')),
      ex_world\<lparr>teamIssueCountCache := [''TeamDelta'' \<mapsto> \<lparr>count = 0, timestamp = 100000\<rparr>]\<rparr>) \<and>
   timers (snd (occupyIssueTransaction ''I4'' ''TeamDelta'' 3
     (ex_world\<lparr>faults := [None, None, Some (Error ''network error'' None)]\<rparr>))) = [] \<and>
   getDoc (issuesCol (snd (occupyIssueTransaction ''I4'' ''TeamDelta'' 3
     (ex_world\<lparr>faults := [None, None, Some (Error ''network error'' None)]\<rparr>)))) ''I4'' =
     Some (mk_issue ''I4'' ''medium'' Open None None)"
  by (simp add: occupy_defs eval_defs ex_defs is_already_def)

section \<open>The expiry sweep\<close>





section \<open>Points for a merged pull request\<close>

text \<open>
  C6, as stated, fails in its second half: \<^verbatim>\<open>updatePrStatus\<close> never reads the issue's
  prStatus. In the example store TeamBravo has 3 points and its easy issue I1 is closed;
  marking it merged gives 13 points, and marking it merged again, after the change feed
  has delivered the new total, gives 23.
\<close>

theorem double_award_counterexample:
  "map_option points (find (\<lambda>t. name t = ''TeamBravo'') (teamsCol ex_closed)) = Some (Number 3) \<and>
   map_option prStatus (getDoc (issuesCol ex_merged) ''I1'') = Some (Some Merged) \<and>
   map_option points (find (\<lambda>t. name t = ''TeamBravo'') (teamsCol ex_merged)) = Some (Number 13) \<and>
   map_option points (find (\<lambda>t. name t = ''TeamBravo'') (teamsCol ex_merged_again)) = Some (Number 23)"
  by (simp add: ex_merged_again_def ex_merged_def ex_closed_def ex_admin_def client_eval ex_defs)

text \<open>
  C6, amended in its second half only. Setting prStatus to merged on an issue with a
  non-null assignedTo increases the assigned team's points by exactly the first tag's
  value (easy 10, medium 20, hard 30): for an issue of the client's list whose first tag
  has the value a and whose team is in the client's team list with p points, the call
  writes the issue's prStatus and then p + a as the team's points, and on a store that
  holds both documents this is the state they end in. The award is not idempotent:
  \<^verbatim>\<open>updatePrStatus\<close> does not depend on the prStatus of any issue, and invoking it with
  merged again on the issue, which is then merged already, awards the points a second
  time (p + a + a once the change feed has delivered the first award).
\<close>

theorem merged_awards_points:
  "awarded (Some ''easy'') = Value 10 \<and> awarded (Some ''medium'') = Value 20 \<and>
   awarded (Some ''hard'') = Value 30 \<and>
   (find (\<lambda>x. id' x = issueId) (issues c) = Some i \<and> assignedTo i = Some n \<and> n \<noteq> [] \<and>
    find (\<lambda>t. Some (name t) = assignedTo i) (teams c) = Some t \<and> points t = Number p \<and>
    awarded (first_tag i) = Value a \<longrightarrow>
      updatePrStatus issueId Merged c =
        [UpdateIssue issueId [PrStatus Merged], UpdateTeam n [Points (Number (p + a))]]) \<and>
   (find (\<lambda>x. id' x = issueId) (issues c) = Some i \<and> assignedTo i = Some n \<and> n \<noteq> [] \<and>
    find (\<lambda>t. Some (name t) = assignedTo i) (teams c) = Some t \<and> points t = Number p \<and>
    awarded (first_tag i) = Value a \<and>
    find (\<lambda>t. name t = n) (teamsCol w) = Some td \<and>
    getDoc (issuesCol w) issueId = Some d \<longrightarrow>
      fst (run_calls (updatePrStatus issueId Merged c) w) = None \<and>
      find (\<lambda>t. name t = n) (teamsCol (snd (run_calls (updatePrStatus issueId Merged c) w))) =
        Some (td\<lparr>points := Number (p + a)\<rparr>) \<and>
      getDoc (issuesCol (snd (run_calls (updatePrStatus issueId Merged c) w))) issueId =
        Some (d\<lparr>prStatus := Some Merged\<rparr>)) \<and>
   (issues c = issuesCol w \<and> teams c = teamsCol w \<and>
    find (\<lambda>x. id' x = issueId) (issues c) = Some i \<and> assignedTo i = Some n \<and> n \<noteq> [] \<and>
    find (\<lambda>t. Some (name t) = assignedTo i) (teams c) = Some t \<and> points t = Number p \<and>
    awarded (first_tag i) = Value a \<longrightarrow>
      find (\<lambda>t. name t = n) (teamsCol w) = Some t \<and>
      find (\<lambda>t. name t = n) (teamsCol (snd (run_calls (updatePrStatus issueId Merged c) w))) =
        Some (t\<lparr>points := Number (p + a)\<rparr>) \<and>
      map_option prStatus
        (find (\<lambda>x. id' x = issueId)
           (issues (sync (snd (run_calls (updatePrStatus issueId Merged c) w)) c))) =
        Some (Some Merged) \<and>
      updatePrStatus issueId Merged (sync (snd (run_calls (updatePrStatus issueId Merged c) w)) c) =
        [UpdateIssue issueId [PrStatus Merged], UpdateTeam n [Points (Number (p + a + a))]]) \<and>
   updatePrStatus issueId Merged (c\<lparr>issues := map (\<lambda>x. x\<lparr>prStatus := pr\<rparr>) (issues c)\<rparr>) =
     updatePrStatus issueId Merged c"
proof (intro conjI impI)
  show "awarded (Some ''easy'') = Value 10" "awarded (Some ''medium'') = Value 20"
    "awarded (Some ''hard'') = Value 30"
    using awarded_table by simp_all
next
  assume "find (\<lambda>x. id' x = issueId) (issues c) = Some i \<and> assignedTo i = Some n \<and> n \<noteq> [] \<and>
    find (\<lambda>t. Some (name t) = assignedTo i) (teams c) = Some t \<and> points t = Number p \<and>
    awarded (first_tag i) = Value a"
  then have h: "find (\<lambda>x. id' x = issueId) (issues c) = Some i" "assignedTo i = Some n" "n \<noteq> []"
      "find (\<lambda>t. Some (name t) = assignedTo i) (teams c) = Some t" "points t = Number p"
      "awarded (first_tag i) = Value a"
    by blast+
  then show "updatePrStatus issueId Merged c =
        [UpdateIssue issueId [PrStatus Merged], UpdateTeam n [Points (Number (p + a))]]"
    by (rule merged_calls)
next
  assume "find (\<lambda>x. id' x = issueId) (issues c) = Some i \<and> assignedTo i = Some n \<and> n \<noteq> [] \<and>
    find (\<lambda>t. Some (name t) = assignedTo i) (teams c) = Some t \<and> points t = Number p \<and>
    awarded (first_tag i) = Value a \<and>
    find (\<lambda>t. name t = n) (teamsCol w) = Some td \<and>
    getDoc (issuesCol w) issueId = Some d"
  then have h: "find (\<lambda>x. id' x = issueId) (issues c) = Some i" "assignedTo i = Some n" "n \<noteq> []"
      "find (\<lambda>t. Some (name t) = assignedTo i) (teams c) = Some t" "points t = Number p"
      "awarded (first_tag i) = Value a"
      "find (\<lambda>t. name t = n) (teamsCol w) = Some td" "getDoc (issuesCol w) issueId = Some d"
    by blast+
  note e = merged_effect [OF h]
  from e show "fst (run_calls (updatePrStatus issueId Merged c) w) = None" by (rule conjunct1)
  from e show "find (\<lambda>t. name t = n) (teamsCol (snd (run_calls (updatePrStatus issueId Merged c) w))) =
        Some (td\<lparr>points := Number (p + a)\<rparr>)" by blast
  from e show "getDoc (issuesCol (snd (run_calls (updatePrStatus issueId Merged c) w))) issueId =
        Some (d\<lparr>prStatus := Some Merged\<rparr>)" by blast
next
  assume "issues c = issuesCol w \<and> teams c = teamsCol w \<and>
    find (\<lambda>x. id' x = issueId) (issues c) = Some i \<and> assignedTo i = Some n \<and> n \<noteq> [] \<and>
    find (\<lambda>t. Some (name t) = assignedTo i) (teams c) = Some t \<and> points t = Number p \<and>
    awarded (first_tag i) = Value a"
  then have h: "issues c = issuesCol w" "teams c = teamsCol w"
      "find (\<lambda>x. id' x = issueId) (issues c) = Some i" "assignedTo i = Some n" "n \<noteq> []"
      "find (\<lambda>t. Some (name t) = assignedTo i) (teams c) = Some t" "points t = Number p"
      "awarded (first_tag i) = Value a"
    by blast+
  note s = merged_store_award [OF h]
  note e = merged_twice [OF h]
  from s show "find (\<lambda>t. name t = n) (teamsCol w) = Some t" by (rule conjunct1)
  from s show "find (\<lambda>t. name t = n) (teamsCol (snd (run_calls (updatePrStatus issueId Merged c) w))) =
        Some (t\<lparr>points := Number (p + a)\<rparr>)" by (rule conjunct2)
  from e show "map_option prStatus
        (find (\<lambda>x. id' x = issueId)
           (issues (sync (snd (run_calls (updatePrStatus issueId Merged c) w)) c))) =
        Some (Some Merged)" by (rule conjunct1)
  from e show "updatePrStatus issueId Merged (sync (snd (run_calls (updatePrStatus issueId Merged c) w)) c) =
        [UpdateIssue issueId [PrStatus Merged], UpdateTeam n [Points (Number (p + a + a))]]"
    by (rule conjunct2)
next
  show "updatePrStatus issueId Merged (c\<lparr>issues := map (\<lambda>x. x\<lparr>prStatus := pr\<rparr>) (issues c)\<rparr>) =
     updatePrStatus issueId Merged c"
    by (rule merged_ignores_prStatus)
qed

theorem merged_awards_points_witness:
  "updatePrStatus ''I1'' Merged (sync ex_closed ex_admin) =
     [UpdateIssue ''I1'' [PrStatus Merged], UpdateTeam ''TeamBravo'' [Points (Number 13)]] \<and>
   find (\<lambda>t. name t = ''TeamBravo'') (teamsCol ex_merged) =
     Some \<lparr>name = ''TeamBravo'', points = Number 13, active = True\<rparr> \<and>
   map_option prStatus (find (\<lambda>x. id' x = ''I1'') (issues (sync ex_merged ex_admin))) =
     Some (Some Merged) \<and>
   updatePrStatus ''I1'' Merged (sync ex_merged ex_admin) =
     [UpdateIssue ''I1'' [PrStatus Merged], UpdateTeam ''TeamBravo'' [Points (Number 23)]]"
proof -
  let ?i = "(mk_issue ''I1'' ''easy'' Closed (Some ''TeamBravo'') (Some 1000))
             \<lparr>closedAt := Some 200000, prUrl := Some (units ''https://example.org/pr/1''),
              prStatus := Some Pending\<rparr>"
  let ?t = "\<lparr>name = ''TeamBravo'', points = Number 3, active = True\<rparr>"
  let ?c = "sync ex_closed ex_admin"
  note t = merged_awards_points [where issueId = "''I1''" and c = ?c and i = ?i
      and n = "''TeamBravo''" and t = ?t and p = 3 and a = 10 and w = ex_closed and td = ?t and d = ?i]
  have g: "getDoc (issuesCol ex_closed) ''I1'' = Some ?i"
    by (simp add: ex_closed_def client_eval ex_defs)
  have ft: "find (\<lambda>t. name t = ''TeamBravo'') (teamsCol ex_closed) = Some ?t"
    by (simp add: ex_closed_def client_eval ex_defs)
  have aw: "awarded (first_tag ?i) = Value 10"
    using t by (simp add: first_tag_def mk_issue_def)
  have h: "issues ?c = issuesCol ex_closed \<and> teams ?c = teamsCol ex_closed \<and>
    find (\<lambda>x. id' x = ''I1'') (issues ?c) = Some ?i \<and> assignedTo ?i = Some ''TeamBravo'' \<and>
    ''TeamBravo'' \<noteq> [] \<and>
    find (\<lambda>t. Some (name t) = assignedTo ?i) (teams ?c) = Some ?t \<and> points ?t = Number 3 \<and>
    awarded (first_tag ?i) = Value 10 \<and>
    find (\<lambda>t. name t = ''TeamBravo'') (teamsCol ex_closed) = Some ?t \<and>
    getDoc (issuesCol ex_closed) ''I1'' = Some ?i"
    using g ft aw by (simp add: sync_def getDoc_def mk_issue_def)
  have s: "sync (snd (run_calls (updatePrStatus ''I1'' Merged ?c) ex_closed)) ?c = sync ex_merged ex_admin"
    by (simp add: sync_def ex_merged_def)
  have c1: "updatePrStatus ''I1'' Merged ?c =
        [UpdateIssue ''I1'' [PrStatus Merged], UpdateTeam ''TeamBravo'' [Points (Number (3 + 10))]]"
    using t h by blast
  have c2: "find (\<lambda>t. name t = ''TeamBravo'')
      (teamsCol (snd (run_calls (updatePrStatus ''I1'' Merged ?c) ex_closed))) =
        Some (?t\<lparr>points := Number (3 + 10)\<rparr>)"
    using t h by blast
  have c3: "map_option prStatus
        (find (\<lambda>x. id' x = ''I1'')
           (issues (sync (snd (run_calls (updatePrStatus ''I1'' Merged ?c) ex_closed)) ?c))) =
        Some (Some Merged)"
    using t h by blast
  have c4: "updatePrStatus ''I1'' Merged (sync (snd (run_calls (updatePrStatus ''I1'' Merged ?c) ex_closed)) ?c) =
        [UpdateIssue ''I1'' [PrStatus Merged], UpdateTeam ''TeamBravo'' [Points (Number (3 + 10 + 10))]]"
    using t h by blast
  from c1 have c1': "updatePrStatus ''I1'' Merged ?c =
     [UpdateIssue ''I1'' [PrStatus Merged], UpdateTeam ''TeamBravo'' [Points (Number 13)]]"
    by simp
  from c2 have c2': "find (\<lambda>t. name t = ''TeamBravo'') (teamsCol ex_merged) =
     Some \<lparr>name = ''TeamBravo'', points = Number 13, active = True\<rparr>"
    by (simp add: ex_merged_def)
  from c3 s have c3': "map_option prStatus (find (\<lambda>x. id' x = ''I1'') (issues (sync ex_merged ex_admin))) =
     Some (Some Merged)"
    by simp
  from c4 s have c4': "updatePrStatus ''I1'' Merged (sync ex_merged ex_admin) =
     [UpdateIssue ''I1'' [PrStatus Merged], UpdateTeam ''TeamBravo'' [Points (Number 23)]]"
    by simp
  from c1' c2' c3' c4' show ?thesis by (intro conjI)
qed

section \<open>Rollback of the optimistic update\<close>

text \<open>
  C7. Whenever \<^verbatim>\<open>occupyIssue\<close> returns a failure, whatever the coordinator and the
  timers did, the client's state is the one it had before the call: its issue list is the
  snapshot taken before the speculative mutation. When the call gets past its local
  checks, its result is that of \<^verbatim>\<open>attemptTransaction\<close>, and the issue list is the
  speculative one on success and the snapshot on failure.
\<close>

theorem occupyIssue_rollback:
  "(\<not> success (fst (occupyIssue transaction issueId c w)) \<longrightarrow>
      fst (snd (occupyIssue transaction issueId c w)) = c \<and>
      issues (fst (snd (occupyIssue transaction issueId c w))) = issues c) \<and>
   (currentTeam c = Some t \<and> onLine c \<and>
    find (\<lambda>x. id' x = issueId) (issues c) = Some i \<and> status i = Open \<and>
    occupiedCount (name t) (issues c) < 3 \<longrightarrow>
      occupyIssue transaction issueId c w =
        (fst (attemptTransaction transaction issueId (name t) 0 w),
         (if success (fst (attemptTransaction transaction issueId (name t) 0 w))
          then c\<lparr>issues := optimistic issueId (name t) (clock w) (issues c)\<rparr>
          else c),
         snd (attemptTransaction transaction issueId (name t) 0 w)))"
proof (intro conjI impI)
  assume f: "\<not> success (fst (occupyIssue transaction issueId c w))"
  then show r: "fst (snd (occupyIssue transaction issueId c w)) = c"
    by (rule occupyIssue_failure_restores)
  then show "issues (fst (snd (occupyIssue transaction issueId c w))) = issues c"
    by simp
next
  assume "currentTeam c = Some t \<and> onLine c \<and>
    find (\<lambda>x. id' x = issueId) (issues c) = Some i \<and> status i = Open \<and>
    occupiedCount (name t) (issues c) < 3"
  then have h: "currentTeam c = Some t" "onLine c"
      "find (\<lambda>x. id' x = issueId) (issues c) = Some i" "status i = Open"
      "occupiedCount (name t) (issues c) < 3"
    by blast+
  then show "occupyIssue transaction issueId c w =
        (fst (attemptTransaction transaction issueId (name t) 0 w),
         (if success (fst (attemptTransaction transaction issueId (name t) 0 w))
          then c\<lparr>issues := optimistic issueId (name t) (clock w) (issues c)\<rparr>
          else c),
         snd (attemptTransaction transaction issueId (name t) 0 w))"
    by (rule occupyIssue_reaches)
qed

theorem occupyIssue_rollback_witness:
  "fst (occupyIssue (\<lambda>k n. occupyIssueTransaction k n 3) ''I4'' (ex_client ''TeamDelta'') ex_stalled) =
     failure ''Transaction failed after retries. Please check your connection and try again.'' \<and>
   fst (snd (occupyIssue (\<lambda>k n. occupyIssueTransaction k n 3) ''I4'' (ex_client ''TeamDelta'') ex_stalled)) =
     ex_client ''TeamDelta'' \<and>
   optimistic ''I4'' ''TeamDelta'' (clock ex_stalled) (issues (ex_client ''TeamDelta'')) \<noteq>
     issues (ex_client ''TeamDelta'') \<and>
   timers (snd (snd (occupyIssue (\<lambda>k n. occupyIssueTransaction k n 3) ''I4''
     (ex_client ''TeamDelta'') ex_stalled))) = [500]"
proof -
  let ?T = "\<lambda>k n. occupyIssueTransaction k n 3"
  let ?c = "ex_client ''TeamDelta''"
  let ?t = "\<lparr>name = ''TeamDelta'', points = Number 0, active = True\<rparr>"
  let ?i = "mk_issue ''I4'' ''medium'' Open None None"
  note t = occupyIssue_rollback [where transaction = ?T and issueId = "''I4''" and c = ?c
      and w = ex_stalled and t = ?t and i = ?i]
  have a: "fst (attemptTransaction ?T ''I4'' ''TeamDelta'' 0 ex_stalled) =
      failure ''Transaction failed after retries. Please check your connection and try again.''"
    and tm: "timers (snd (attemptTransaction ?T ''I4'' ''TeamDelta'' 0 ex_stalled)) = [500]"
    by (simp_all add: attempt_eval occupy_defs eval_defs ex_stalled_def ex_defs already_msg_def)
  have h: "currentTeam ?c = Some ?t \<and> onLine ?c \<and>
    find (\<lambda>x. id' x = ''I4'') (issues ?c) = Some ?i \<and> status ?i = Open \<and>
    occupiedCount (name ?t) (issues ?c) < 3"
    by (simp add: occupiedCount_def teamOccupied_def ex_defs)
  have o: "occupyIssue ?T ''I4'' ?c ex_stalled =
        (fst (attemptTransaction ?T ''I4'' (name ?t) 0 ex_stalled),
         (if success (fst (attemptTransaction ?T ''I4'' (name ?t) 0 ex_stalled))
          then ?c\<lparr>issues := optimistic ''I4'' (name ?t) (clock ex_stalled) (issues ?c)\<rparr>
          else ?c),
         snd (attemptTransaction ?T ''I4'' (name ?t) 0 ex_stalled))"
    using t h by blast
  from o a have c1: "fst (occupyIssue ?T ''I4'' ?c ex_stalled) =
      failure ''Transaction failed after retries. Please check your connection and try again.''"
    by simp
  then have f: "\<not> success (fst (occupyIssue ?T ''I4'' ?c ex_stalled))"
    by (simp add: failure_def)
  have c2: "fst (snd (occupyIssue ?T ''I4'' ?c ex_stalled)) = ?c"
    using t f by blast
  have c3: "optimistic ''I4'' ''TeamDelta'' (clock ex_stalled) (issues ?c) \<noteq> issues ?c"
    by (simp add: optimistic_def ex_stalled_def ex_defs)
  from o tm have c4: "timers (snd (snd (occupyIssue ?T ''I4'' ?c ex_stalled))) = [500]"
    by simp
  from c1 c2 c3 c4 show ?thesis by (intro conjI)
qed

section \<open>Eviction from the quota cache\<close>

text \<open>
  C8 fails on the code. The eviction (lines 736-744) follows a \<^verbatim>\<open>try\<close> statement whose
  every path returns, so no call reaches it, whatever \<^verbatim>\<open>Math.random()\<close> would give.
  Here TeamCharlie's entry is 100 s old when TeamDelta claims an issue: the entry is still
  there after the call, while the eviction with a draw of 0.05 would have deleted it.
\<close>

theorem expired_cache_entry_survives:
  "fst (occupyIssueTransaction ''I4'' ''TeamDelta'' 3
        (ex_world\<lparr>teamIssueCountCache := [''TeamCharlie'' \<mapsto> \<lparr>count = 1, timestamp = 0\<rparr>]\<rparr>)) = ok \<and>
   teamIssueCountCache
     (snd (occupyIssueTransaction ''I4'' ''TeamDelta'' 3
        (ex_world\<lparr>teamIssueCountCache := [''TeamCharlie'' \<mapsto> \<lparr>count = 1, timestamp = 0\<rparr>]\<rparr>)))
     ''TeamCharlie'' = Some \<lparr>count = 1, timestamp = 0\<rparr> \<and>
   evict_expired (1 / 20) 100000 [''TeamCharlie'' \<mapsto> \<lparr>count = 1, timestamp = 0\<rparr>] ''TeamCharlie'' = None"
  by (simp add: occupy_defs eval_defs ex_defs evict_expired_def)

section \<open>Closing an issue\<close>

text \<open>
  C9. For every issue id, \<^verbatim>\<open>closeIssue\<close> with a pull-request URL that is empty or only
  white space (the URL trims to the empty string exactly when all its code units are
  white space) returns the failure "PR URL is required" and makes no store call. With
  any other URL (and a clock that does not read 0) it returns success and makes one
  call, which writes status closed, closedAt the current time, the trimmed URL and
  prStatus pending, leaving the other fields of the document as they are.
\<close>

theorem closeIssue_requires_url:
  "(trim url = [] \<longleftrightarrow> list_all is_space url) \<and>
   (url = [] \<or> trim url = [] \<longrightarrow>
      closeIssue issueId url now = (failure ''PR URL is required'', [])) \<and>
   (trim url \<noteq> [] \<and> now \<noteq> 0 \<longrightarrow>
      closeIssue issueId url now =
        (ok, [UpdateIssue issueId
                [Status Closed, ClosedAt (Some now), PrUrl (trim url), PrStatus Pending]]) \<and>
      apply_updates [Status Closed, ClosedAt (Some now), PrUrl (trim url), PrStatus Pending] d =
        d\<lparr>status := Closed, closedAt := Some now, prUrl := Some (trim url),
          prStatus := Some Pending\<rparr>)"
proof (intro conjI impI)
  show "trim url = [] \<longleftrightarrow> list_all is_space url"
    by (rule trim_blank)
next
  assume "url = [] \<or> trim url = []"
  then show "closeIssue issueId url now = (failure ''PR URL is required'', [])"
    by (rule closeIssue_blank)
next
  assume "trim url \<noteq> [] \<and> now \<noteq> 0"
  then show "closeIssue issueId url now =
        (ok, [UpdateIssue issueId
                [Status Closed, ClosedAt (Some now), PrUrl (trim url), PrStatus Pending]])"
    by (simp add: closeIssue_given)
next
  show "apply_updates [Status Closed, ClosedAt (Some now), PrUrl (trim url), PrStatus Pending] d =
        d\<lparr>status := Closed, closedAt := Some now, prUrl := Some (trim url),
          prStatus := Some Pending\<rparr>"
    by (simp add: apply_updates_def)
qed

theorem closeIssue_requires_url_witness:
  "trim [0x0020, 0x00A0, 0x3000, 0x0009, 0xFEFF] = [] \<and>
   closeIssue ''I1'' [0x0020, 0x00A0, 0x3000, 0x0009, 0xFEFF] 200000 =
     (failure ''PR URL is required'', []) \<and>
   closeIssue ''I1'' [] 200000 = (failure ''PR URL is required'', []) \<and>
   closeIssue ''I1'' ([0x00A0] @ units '' https://example.org/pr/1 '' @ [0x2028]) 200000 =
     (ok, [UpdateIssue ''I1''
             [Status Closed, ClosedAt (Some 200000), PrUrl (units ''https://example.org/pr/1''),
              PrStatus Pending]])"
proof -
  let ?blank = "[0x0020, 0x00A0, 0x3000, 0x0009, 0xFEFF] :: js_string"
  let ?url = "[0x00A0] @ units '' https://example.org/pr/1 '' @ [0x2028]"
  have b: "trim ?blank = []"
    by (simp add: trim_def is_space_def white_space_def)
  have g: "trim ?url = units ''https://example.org/pr/1''"
    by (simp add: trim_def is_space_def white_space_def units_def)
  have c1: "closeIssue ''I1'' ?blank 200000 = (failure ''PR URL is required'', [])"
    using closeIssue_requires_url [where url = ?blank and issueId = "''I1''" and now = 200000] b
    by blast
  have c2: "closeIssue ''I1'' [] 200000 = (failure ''PR URL is required'', [])"
    using closeIssue_requires_url [where url = "[]" and issueId = "''I1''" and now = 200000]
    by blast
  have "trim ?url \<noteq> [] \<and> (200000::int) \<noteq> 0"
    using g by (simp add: units_def)
  then have "closeIssue ''I1'' ?url 200000 =
     (ok, [UpdateIssue ''I1''
             [Status Closed, ClosedAt (Some 200000), PrUrl (trim ?url), PrStatus Pending]])"
    using closeIssue_requires_url [where url = ?url and issueId = "''I1''" and now = 200000]
    by blast
  with g have c3: "closeIssue ''I1'' ?url 200000 =
     (ok, [UpdateIssue ''I1''
             [Status Closed, ClosedAt (Some 200000), PrUrl (units ''https://example.org/pr/1''),
              PrStatus Pending]])"
    by simp
  from b c1 c2 c3 show ?thesis by (intro conjI)
qed

section \<open>Approving and rejecting a pull request\<close>

text \<open>
  C10. \<^verbatim>\<open>updatePrStatus\<close> with approved or rejected makes one store call, the update
  of the issue's prStatus: the team collection is left as it is, and in the issue
  collection nothing but the prStatus of the issue with that id changes.
\<close>

theorem updatePrStatus_frame:
  "st = Approved \<or> st = Rejected \<longrightarrow>
     updatePrStatus issueId st c = [UpdateIssue issueId [PrStatus st]] \<and>
     teamsCol (snd (run_calls (updatePrStatus issueId st c) w)) = teamsCol w \<and>
     issuesCol (snd (run_calls (updatePrStatus issueId st c) w)) =
       map (\<lambda>x. if id' x = issueId then x\<lparr>prStatus := Some st\<rparr> else x) (issuesCol w)"
proof
  assume a: "st = Approved \<or> st = Rejected"
  then have "updatePrStatus issueId st c = [UpdateIssue issueId [PrStatus st]]"
    by (auto simp: updatePrStatus_other)
  with prStatus_only_effect [OF a, of issueId c w]
  show "updatePrStatus issueId st c = [UpdateIssue issueId [PrStatus st]] \<and>
     teamsCol (snd (run_calls (updatePrStatus issueId st c) w)) = teamsCol w \<and>
     issuesCol (snd (run_calls (updatePrStatus issueId st c) w)) =
       map (\<lambda>x. if id' x = issueId then x\<lparr>prStatus := Some st\<rparr> else x) (issuesCol w)"
    by simp
qed

theorem updatePrStatus_frame_witness:
  "updatePrStatus ''I1'' Approved (sync ex_closed ex_admin) = [UpdateIssue ''I1'' [PrStatus Approved]] \<and>
   teamsCol (snd (run_calls (updatePrStatus ''I1'' Approved (sync ex_closed ex_admin)) ex_closed)) =
     teamsCol ex_closed \<and>
   updatePrStatus ''I1'' Rejected (sync ex_closed ex_admin) = [UpdateIssue ''I1'' [PrStatus Rejected]] \<and>
   teamsCol (snd (run_calls (updatePrStatus ''I1'' Rejected (sync ex_closed ex_admin)) ex_closed)) =
     teamsCol ex_closed \<and>
   map_option prStatus
     (getDoc (issuesCol (snd (run_calls (updatePrStatus ''I1'' Rejected (sync ex_closed ex_admin)) ex_closed)))
        ''I1'') = Some (Some Rejected)"
proof -
  let ?c = "sync ex_closed ex_admin"
  note a = updatePrStatus_frame [where st = Approved and issueId = "''I1''" and c = ?c and w = ex_closed]
  note r = updatePrStatus_frame [where st = Rejected and issueId = "''I1''" and c = ?c and w = ex_closed]
  have c1: "updatePrStatus ''I1'' Approved ?c = [UpdateIssue ''I1'' [PrStatus Approved]]"
    using a by blast
  have c2: "teamsCol (snd (run_calls (updatePrStatus ''I1'' Approved ?c) ex_closed)) = teamsCol ex_closed"
    using a by blast
  have c3: "updatePrStatus ''I1'' Rejected ?c = [UpdateIssue ''I1'' [PrStatus Rejected]]"
    using r by blast
  have c4: "teamsCol (snd (run_calls (updatePrStatus ''I1'' Rejected ?c) ex_closed)) = teamsCol ex_closed"
    using r by blast
  have c5: "issuesCol (snd (run_calls (updatePrStatus ''I1'' Rejected ?c) ex_closed)) =
       map (\<lambda>x. if id' x = ''I1'' then x\<lparr>prStatus := Some Rejected\<rparr> else x) (issuesCol ex_closed)"
    using r by blast
  have c6: "map_option prStatus
     (getDoc (issuesCol (snd (run_calls (updatePrStatus ''I1'' Rejected ?c) ex_closed))) ''I1'') =
       Some (Some Rejected)"
    by (simp add: c5 ex_closed_def client_eval ex_defs)
  from c1 c2 c3 c4 c6 show ?thesis by (intro conjI)
qed

end
